theory Spec2Isabelle
  imports Main "HOL-Library.Sublist"
begin

section \<open>JavaScript values used by the token layer\<close>

text \<open>
  The token layer is two modules: the credential store \<^verbatim>\<open>lib/auth\<close> (\<^verbatim>\<open>setTokens\<close>,
  \<^verbatim>\<open>getTokens\<close>, \<^verbatim>\<open>isAccessExpired\<close>, \<^verbatim>\<open>isRefreshTokenValid\<close>, \<^verbatim>\<open>handleAuthError\<close>; the
  last part of \<^verbatim>\<open>App/lib/types.ts\<close>) and the request layer \<^verbatim>\<open>lib/api\<close> (\<^verbatim>\<open>fetchWithTimeout\<close>,
  \<^verbatim>\<open>refreshTokens\<close>, \<^verbatim>\<open>getValidToken\<close>, \<^verbatim>\<open>fetchWithAuth\<close>; \<^verbatim>\<open>unnamed/part_007\<close>).

  They handle values that are a string, \<^verbatim>\<open>null\<close> or \<^verbatim>\<open>undefined\<close>: what
  \<^verbatim>\<open>localStorage.getItem\<close> returns, and the fields of a parsed response body. Numbers are
  modelled as \<open>int\<close> (instants in epoch milliseconds, durations in seconds); fractional
  numbers and \<^verbatim>\<open>NaN\<close> are named where the code can meet them.
\<close>

datatype jsval = Undefined | Null | Str string

text \<open>\<^verbatim>\<open>!v\<close> is \<open>\<not> truthy v\<close>: the empty string is falsy.\<close>

fun truthy :: "jsval \<Rightarrow> bool" where
  "truthy (Str s) = (s \<noteq> [])"
| "truthy Undefined = False"
| "truthy Null = False"

text \<open>\<^verbatim>\<open>a ?? b\<close>\<close>

fun nullish_or :: "jsval \<Rightarrow> jsval \<Rightarrow> jsval" where
  "nullish_or Undefined b = b"
| "nullish_or Null b = b"
| "nullish_or (Str s) b = Str s"

text \<open>\<^verbatim>\<open>a || b\<close>\<close>

definition js_or :: "jsval \<Rightarrow> jsval \<Rightarrow> jsval" where
  "js_or a b = (if truthy a then a else b)"

text \<open>\<^verbatim>\<open>String(v)\<close>, the conversion \<^verbatim>\<open>localStorage.setItem\<close> applies to its value.\<close>

fun js_String :: "jsval \<Rightarrow> string" where
  "js_String Undefined = ''undefined''"
| "js_String Null = ''null''"
| "js_String (Str s) = s"

text \<open>An exception value: its \<^verbatim>\<open>name\<close> and its \<^verbatim>\<open>message\<close>.\<close>

datatype js_error = JsError (err_name: string) (err_message: string)

abbreviation Error :: "string \<Rightarrow> js_error" where
  "Error m \<equiv> JsError ''Error'' m"

subsection \<open>Decimal text of integers\<close>

definition digit_char :: "nat \<Rightarrow> char" where
  "digit_char d = ''0123456789'' ! d"

definition is_digit :: "char \<Rightarrow> bool" where
  "is_digit c = (48 \<le> (of_char c :: nat) \<and> (of_char c :: nat) \<le> 57)"

definition digit_val :: "char \<Rightarrow> nat" where
  "digit_val c = (of_char c :: nat) - 48"

fun nat_to_string :: "nat \<Rightarrow> string" where
  "nat_to_string n =
     (if n < 10 then [digit_char n] else nat_to_string (n div 10) @ [digit_char (n mod 10)])"

declare nat_to_string.simps [simp del]

text \<open>\<^verbatim>\<open>String(n)\<close> for an integral number \<open>n\<close> (below \<open>10\<^sup>2\<^sup>1\<close> in magnitude, where
  JavaScript prints plain decimal digits).\<close>

definition String_of_int :: "int \<Rightarrow> string" where
  "String_of_int i = (if i < 0 then CHR ''-'' # nat_to_string (nat (- i)) else nat_to_string (nat i))"

text \<open>White space that \<^verbatim>\<open>parseInt\<close> and \<^verbatim>\<open>trim\<close> skip (the ASCII part of it).\<close>

definition is_ws :: "char \<Rightarrow> bool" where
  "is_ws c = ((of_char c :: nat) \<in> {9, 10, 11, 12, 13, 32})"

definition digits_value :: "string \<Rightarrow> nat" where
  "digits_value ds = foldl (\<lambda>a c. 10 * a + digit_val c) 0 ds"

text \<open>
  \<^verbatim>\<open>Number.parseInt(s, 10)\<close>: skip leading white space, read an optional sign, then the
  longest run of decimal digits; \<open>None\<close> is \<^verbatim>\<open>NaN\<close> (no digit read).
\<close>

definition parseInt :: "string \<Rightarrow> int option" where
  "parseInt s =
     (let s1 = dropWhile is_ws s;
          neg = (case s1 of c # _ \<Rightarrow> c = CHR ''-'' | [] \<Rightarrow> False);
          s2 = (case s1 of c # r \<Rightarrow> if c = CHR ''-'' \<or> c = CHR ''+'' then r else s1 | [] \<Rightarrow> s1);
          ds = takeWhile is_digit s2
      in if ds = [] then None
         else Some (if neg then - int (digits_value ds) else int (digits_value ds)))"

text \<open>\<^verbatim>\<open>s.trim()\<close>\<close>

definition trim :: "string \<Rightarrow> string" where
  "trim s = rev (dropWhile is_ws (rev (dropWhile is_ws s)))"

text \<open>\<^verbatim>\<open>s.split(c)\<close> for a one-character separator: never an empty array.\<close>

fun split_on :: "char \<Rightarrow> string \<Rightarrow> string list" where
  "split_on c [] = [] # []"
| "split_on c (x # xs) =
     (if x = c then [] # split_on c xs
      else (case split_on c xs of p # ps \<Rightarrow> (x # p) # ps | [] \<Rightarrow> [x] # []))"

text \<open>\<^verbatim>\<open>s.includes(t)\<close> and \<^verbatim>\<open>s.startsWith(t)\<close>\<close>

definition js_includes :: "string \<Rightarrow> string \<Rightarrow> bool" where
  "js_includes s t = sublist t s"

definition startsWith :: "string \<Rightarrow> string \<Rightarrow> bool" where
  "startsWith s t = prefix t s"

section \<open>The world the token layer runs in\<close>

text \<open>
  A response of the backend: the status line and what \<^verbatim>\<open>res.json()\<close> yields. The only
  body this layer reads is that of the refresh endpoint: \<open>Unparseable\<close> makes
  \<^verbatim>\<open>res.json()\<close> reject, \<open>JsonNull\<close> is the body \<^verbatim>\<open>null\<close>, and \<open>JsonObj\<close> carries the four
  properties the code looks at (\<open>Undefined\<close> for a property that is omitted; any other
  JSON value that is not an object behaves as an object with every property omitted).
\<close>

record json_fields =
  access_token :: jsval
  refresh_token :: jsval
  expires_in :: "int option"
  message :: jsval

datatype json_body = Unparseable | JsonNull | JsonObj json_fields

record response =
  status :: nat
  body :: json_body

text \<open>\<^verbatim>\<open>res.ok\<close>\<close>

definition ok :: "response \<Rightarrow> bool" where
  "ok res = (200 \<le> status res \<and> status res \<le> 299)"

text \<open>
  What the network does with one request: after so many milliseconds it answers, or the
  transport fails with an exception (a \<^verbatim>\<open>TypeError\<close> in browsers).
\<close>

datatype net_outcome = Reply nat response | NetFail nat js_error

fun latency :: "net_outcome \<Rightarrow> nat" where
  "latency (Reply ms _) = ms"
| "latency (NetFail ms _) = ms"

text \<open>\<^verbatim>\<open>RequestInit\<close> as the callers use it, and the request that reaches \<^verbatim>\<open>fetch\<close>. Header
  names are in the lower case that the \<^verbatim>\<open>Headers\<close> class normalises them to.\<close>

record request_init =
  init_method :: "string option"
  init_headers :: "string \<rightharpoonup> string"
  init_body :: "string option"

record request =
  url :: string
  req_method :: "string option"
  req_headers :: "string \<rightharpoonup> string"
  req_body :: "string option"
  mode :: string
  credentials :: string

text \<open>Who sent a request: the refresh coordinator, or the executor with its \<^verbatim>\<open>retryCount\<close>.\<close>

datatype origin = RefreshExchange | Attempt nat

text \<open>
  A promise made by the body of \<^verbatim>\<open>refreshTokens\<close>: still waiting for the request with the
  given index in the log of sent requests (remembering the refresh credential that the body
  read before it suspended), or fulfilled with a value.
\<close>

datatype pstate = Pending string nat | Fulfilled jsval

text \<open>
  What \<^verbatim>\<open>JSON.parse(atob(segment)).exp * 1000\<close> does on a segment of the refresh
  credential: it throws (not base64, not JSON, or the payload is \<^verbatim>\<open>null\<close>), or yields
  \<^verbatim>\<open>NaN\<close> (the payload has no numeric \<^verbatim>\<open>exp\<close>), or the claim \<open>exp\<close> in seconds.
\<close>

datatype exp_claim = Throws | ExpNaN | Exp int

text \<open>
  The environment (first five fields, never written by the code), the module and browser
  state the code mutates, and logs of the effects it has:
  \<^item> \<open>has_window\<close>: \<^verbatim>\<open>typeof window !== "undefined"\<close>;
  \<^item> \<open>env_base\<close>: \<^verbatim>\<open>process.env.NEXT_PUBLIC_API_BASE_URL\<close>;
  \<^item> \<open>pathname\<close>: \<^verbatim>\<open>window.location.pathname\<close>;
  \<^item> \<open>decode_exp\<close>: the platform's \<^verbatim>\<open>atob\<close> and \<^verbatim>\<open>JSON.parse\<close>, as above;
  \<^item> \<open>net\<close>: what the network does with the request that is sent as number \<open>n\<close>;
  \<^item> \<open>clock\<close>: \<^verbatim>\<open>Date.now()\<close>;
  \<^item> \<open>refreshPromise\<close>: the module variable of that name, \<open>None\<close> for \<^verbatim>\<open>null\<close>, else the
    index in \<open>promises\<close> of the promise it holds;
  \<^item> \<open>sent\<close>: the requests handed to \<^verbatim>\<open>fetch\<close>, oldest first;
  \<^item> \<open>navigations\<close>: the values assigned to \<^verbatim>\<open>window.location.href\<close>;
  \<^item> \<open>console\<close>: the lines of \<^verbatim>\<open>console.error\<close>.
\<close>

record world =
  has_window :: bool
  env_base :: "string option"
  pathname :: string
  decode_exp :: "string \<Rightarrow> exp_claim"
  net :: "nat \<Rightarrow> net_outcome"
  clock :: int
  localStorage :: "string \<rightharpoonup> string"
  refreshPromise :: "nat option"
  promises :: "pstate list"
  sent :: "(origin \<times> request) list"
  navigations :: "string list"
  console :: "string list"

section \<open>The credential store (\<^verbatim>\<open>lib/auth\<close>)\<close>

definition ACCESS_KEY :: string where "ACCESS_KEY = ''access_token''"
definition REFRESH_KEY :: string where "REFRESH_KEY = ''refresh_token''"
definition EXP_KEY :: string where "EXP_KEY = ''access_expiry''"

record tokens =
  accessToken :: jsval
  refreshToken :: jsval
  accessExpiry :: "int option"

text \<open>\<^verbatim>\<open>localStorage.getItem(k)\<close>\<close>

definition getItem :: "world \<Rightarrow> string \<Rightarrow> jsval" where
  "getItem w k = (case localStorage w k of None \<Rightarrow> Null | Some v \<Rightarrow> Str v)"

definition setTokens :: "jsval \<Rightarrow> jsval \<Rightarrow> int \<Rightarrow> world \<Rightarrow> world" where
  "setTokens access refresh accessExpiryMs w =
     (if \<not> has_window w then w
      else w\<lparr>localStorage := (localStorage w)
               (ACCESS_KEY \<mapsto> js_String access,
                REFRESH_KEY \<mapsto> js_String refresh,
                EXP_KEY \<mapsto> String_of_int accessExpiryMs)\<rparr>)"

text \<open>In \<^verbatim>\<open>getTokens\<close>, \<^verbatim>\<open>parseInt(...) || null\<close> turns both \<^verbatim>\<open>NaN\<close> and 0 into \<^verbatim>\<open>null\<close>.\<close>

definition getTokens :: "world \<Rightarrow> tokens" where
  "getTokens w =
     (if \<not> has_window w then \<lparr>accessToken = Null, refreshToken = Null, accessExpiry = None\<rparr>
      else \<lparr>accessToken = getItem w ACCESS_KEY,
            refreshToken = getItem w REFRESH_KEY,
            accessExpiry =
              (case parseInt (js_String (js_or (getItem w EXP_KEY) (Str ''0''))) of
                 None \<Rightarrow> None
               | Some n \<Rightarrow> if n = 0 then None else Some n)\<rparr>)"

definition hasTokens :: "world \<Rightarrow> bool" where
  "hasTokens w = (let t = getTokens w in truthy (accessToken t) \<and> truthy (refreshToken t))"

definition clearTokens :: "world \<Rightarrow> world" where
  "clearTokens w =
     (if \<not> has_window w then w
      else w\<lparr>localStorage := (localStorage w)(ACCESS_KEY := None, REFRESH_KEY := None, EXP_KEY := None)\<rparr>)"

definition isAccessExpired :: "world \<Rightarrow> bool" where
  "isAccessExpired w =
     (case accessExpiry (getTokens w) of
        None \<Rightarrow> True
      | Some e \<Rightarrow> if e = 0 then True else clock w > e - 10000)"

text \<open>
  \<^verbatim>\<open>refreshToken.split('.')[1]\<close> is \<^verbatim>\<open>undefined\<close> when the credential has no dot;
  \<^verbatim>\<open>atob(undefined)\<close> decodes the nine characters \<^verbatim>\<open>undefined\<close>, which is not base64, and
  throws.
\<close>

definition payload_exp :: "world \<Rightarrow> string \<Rightarrow> exp_claim" where
  "payload_exp w rt =
     (let parts = split_on CHR ''.'' rt
      in if length parts > 1 then decode_exp w (parts ! 1) else Throws)"

definition isRefreshTokenValid :: "world \<Rightarrow> bool" where
  "isRefreshTokenValid w =
     (case refreshToken (getTokens w) of
        Str rt \<Rightarrow>
          if rt = [] then False
          else (case payload_exp w rt of
                  Throws \<Rightarrow> True
                | ExpNaN \<Rightarrow> False
                | Exp e \<Rightarrow> clock w < e * 1000 - 5000)
      | _ \<Rightarrow> False)"

text \<open>
  \<^verbatim>\<open>handleAuthError\<close>: the unrecoverable-failure side effect. The assignment to
  \<^verbatim>\<open>window.location.href\<close> is logged in \<open>navigations\<close>; \<^verbatim>\<open>location.pathname\<close> keeps its
  value while the code of this page runs.
\<close>

definition handleAuthError :: "string \<Rightarrow> world \<Rightarrow> world" where
  "handleAuthError err w =
     (if \<not> has_window w then w
      else
        let w1 = clearTokens (w\<lparr>console := console w @ [''Auth error: '' @ err]\<rparr>);
            currentPath = pathname w1
        in if currentPath \<noteq> ''/login'' \<and> currentPath \<noteq> ''/signup'' \<and> currentPath \<noteq> ''/''
           then w1\<lparr>navigations := navigations w1 @ [''/login'']\<rparr>
           else w1)"

section \<open>The request layer (\<^verbatim>\<open>lib/api\<close>)\<close>

definition apiBase :: "world \<Rightarrow> js_error + string" where
  "apiBase w =
     (case env_base w of
        None \<Rightarrow> Inl (Error ''NEXT_PUBLIC_API_BASE_URL is not configured. Please set it in your environment variables.'')
      | Some base \<Rightarrow>
          if base = []
          then Inl (Error ''NEXT_PUBLIC_API_BASE_URL is not configured. Please set it in your environment variables.'')
          else Inr (trim base))"

definition DEFAULT_TIMEOUT :: nat where "DEFAULT_TIMEOUT = 30000"

definition CHAT_TIMEOUT :: nat where "CHAT_TIMEOUT = 0"

subsection \<open>\<^verbatim>\<open>fetchWithTimeout\<close>\<close>

text \<open>
  The platform's part. Without a signal, \<^verbatim>\<open>fetch\<close> settles as the network does. With the
  signal of a controller that a timer aborts after \<open>timeout\<close> milliseconds, it settles as the
  network does if that comes first, and rejects with an \<^verbatim>\<open>AbortError\<close> otherwise. Each
  result comes with the time that has passed.
\<close>

definition net_result :: "net_outcome \<Rightarrow> js_error + response" where
  "net_result out = (case out of Reply _ res \<Rightarrow> Inr res | NetFail _ e \<Rightarrow> Inl e)"

definition abortable_fetch :: "nat \<Rightarrow> net_outcome \<Rightarrow> nat \<times> (js_error + response)" where
  "abortable_fetch timeout out =
     (if latency out < timeout then (latency out, net_result out)
      else (timeout, Inl (JsError ''AbortError'' ''The operation was aborted.'')))"

text \<open>The code's part: no timer for timeout 0; otherwise the \<^verbatim>\<open>.then\<close> and \<^verbatim>\<open>.catch\<close> handlers.\<close>

definition fetch_result :: "nat \<Rightarrow> net_outcome \<Rightarrow> nat \<times> (js_error + response)" where
  "fetch_result timeout out =
     (if timeout = 0 then (latency out, net_result out)
      else
        (case abortable_fetch timeout out of
           (ms, Inr res) \<Rightarrow> (ms, Inr res)
         | (ms, Inl error) \<Rightarrow>
             if err_name error = ''AbortError''
             then (ms, Inl (Error ''Request timeout - API took too long to respond''))
             else (ms, Inl error)))"

text \<open>
  A caller that awaits the result, with nothing else running in between: the request is
  logged, the network's answer to it is the next one of \<open>net\<close>, and the clock moves on.
\<close>

definition fetchWithTimeout ::
  "origin \<Rightarrow> request \<Rightarrow> nat \<Rightarrow> world \<Rightarrow> world \<times> (js_error + response)" where
  "fetchWithTimeout who req timeout w =
     (case fetch_result timeout (net w (length (sent w))) of
        (ms, r) \<Rightarrow> (w\<lparr>clock := clock w + int ms, sent := sent w @ [(who, req)]\<rparr>, r))"

subsection \<open>\<^verbatim>\<open>refreshTokens\<close>, the refresh coordinator\<close>

definition dquote :: char where "dquote = CHR 0x22"

text \<open>\<^verbatim>\<open>JSON.stringify({ refresh_token: rt })\<close>, for a credential without characters that JSON
  escapes.\<close>

definition refresh_request :: "string \<Rightarrow> string \<Rightarrow> request" where
  "refresh_request base rt =
     \<lparr>url = base @ ''/api/auth/refresh'',
      req_method = Some ''POST'',
      req_headers = [''content-type'' \<mapsto> ''application/json'', ''accept'' \<mapsto> ''application/json''],
      req_body = Some (''{'' @ [dquote] @ ''refresh_token'' @ [dquote] @ '':'' @ [dquote] @ rt @ [dquote] @ ''}''),
      mode = ''cors'',
      credentials = ''omit''\<rparr>"

text \<open>The \<^verbatim>\<open>catch\<close> and \<^verbatim>\<open>finally\<close> blocks of the body.\<close>

definition refresh_catch :: "js_error \<Rightarrow> world \<Rightarrow> world" where
  "refresh_catch err w =
     handleAuthError (err_message err) (w\<lparr>console := console w @ [''Token refresh error: '' @ err_message err]\<rparr>)"

definition refresh_finally :: "world \<Rightarrow> world" where
  "refresh_finally w = w\<lparr>refreshPromise := None\<rparr>"

text \<open>
  The body of the \<^verbatim>\<open>async\<close> arrow function runs synchronously up to its first
  \<^verbatim>\<open>await\<close>. It returns \<^verbatim>\<open>null\<close> at once (the two early returns above the \<^verbatim>\<open>try\<close>, or
  \<^verbatim>\<open>apiBase()\<close> throwing inside it, which runs \<^verbatim>\<open>catch\<close> and \<^verbatim>\<open>finally\<close>), or it sends
  the exchange and suspends.
\<close>

definition refresh_body_start :: "world \<Rightarrow> world \<times> pstate" where
  "refresh_body_start w =
     (let refreshTok = refreshToken (getTokens w)
      in if \<not> truthy refreshTok then (handleAuthError ''No refresh token'' w, Fulfilled Null)
         else if \<not> isRefreshTokenValid w then (handleAuthError ''Refresh token expired'' w, Fulfilled Null)
         else
           (case apiBase w of
              Inl err \<Rightarrow> (refresh_finally (refresh_catch err w), Fulfilled Null)
            | Inr base \<Rightarrow>
                (w\<lparr>sent := sent w @ [(RefreshExchange, refresh_request base (js_String refreshTok))]\<rparr>,
                 Pending (js_String refreshTok) (length (sent w)))))"

text \<open>
  One invocation of \<^verbatim>\<open>refreshTokens\<close>, up to the point where it returns a promise: the
  handle if there is one, else the promise of a new body, which is assigned to the handle
  after the body has run its synchronous part.
\<close>

definition refreshTokens_call :: "world \<Rightarrow> world \<times> nat" where
  "refreshTokens_call w =
     (case refreshPromise w of
        Some p \<Rightarrow> (w, p)
      | None \<Rightarrow>
          (case refresh_body_start w of
             (w1, st) \<Rightarrow>
               (w1\<lparr>refreshPromise := Some (length (promises w1)), promises := promises w1 @ [st]\<rparr>,
                length (promises w1))))"

text \<open>The rest of the \<^verbatim>\<open>try\<close> block, once \<^verbatim>\<open>await fetchWithTimeout(...)\<close> has settled with
  \<open>r\<close> and the body has been read; \<open>Inl\<close> is an exception on its way to \<^verbatim>\<open>catch\<close>.\<close>

definition refresh_try :: "string \<Rightarrow> js_error + response \<Rightarrow> world \<Rightarrow> js_error + world \<times> jsval" where
  "refresh_try refreshTok r w =
     (case r of
        Inl err \<Rightarrow> Inl err
      | Inr res \<Rightarrow>
          if \<not> ok res then
            (let data_message =
                   (case body res of
                      Unparseable \<Rightarrow> Str ''Refresh failed''
                    | JsonNull \<Rightarrow> Undefined
                    | JsonObj data \<Rightarrow> message data)
             in Inl (Error (js_String (js_or data_message (Str ''Refresh failed'')))))
          else
            (case body res of
               Unparseable \<Rightarrow> Inl (JsError ''SyntaxError'' ''Unexpected end of JSON input'')
             | JsonNull \<Rightarrow> Inl (JsError ''TypeError'' ''Cannot read properties of null'')
             | JsonObj data \<Rightarrow>
                 (let expiry = clock w + (case expires_in data of None \<Rightarrow> 900 | Some n \<Rightarrow> n) * 1000
                  in Inr (setTokens (access_token data)
                            (nullish_or (refresh_token data) (Str refreshTok)) expiry w,
                          access_token data))))"

definition refresh_body_resume :: "string \<Rightarrow> js_error + response \<Rightarrow> world \<Rightarrow> world \<times> jsval" where
  "refresh_body_resume refreshTok r w =
     (case refresh_try refreshTok r w of
        Inr (w1, v) \<Rightarrow> (refresh_finally w1, v)
      | Inl err \<Rightarrow> (refresh_finally (refresh_catch err w), Null))"

text \<open>
  The exchange of promise \<open>p\<close> settles with \<open>r\<close>: the body resumes, runs to its end without
  suspending again in a way that lets other code see a difference (the handle and the store
  are written only after the last \<^verbatim>\<open>await\<close>), and fulfils the promise.
\<close>

definition refresh_settle :: "nat \<Rightarrow> js_error + response \<Rightarrow> world \<Rightarrow> world \<times> jsval" where
  "refresh_settle p r w =
     (case promises w ! p of
        Fulfilled v \<Rightarrow> (w, v)
      | Pending refreshTok _ \<Rightarrow>
          (case refresh_body_resume refreshTok r w of
             (w1, v) \<Rightarrow> (w1\<lparr>promises := (promises w1)[p := Fulfilled v]\<rparr>, v)))"

text \<open>
  \<^verbatim>\<open>await\<close> on a promise of the coordinator, with nothing else running in between: a
  fulfilled promise gives its value; for a pending one the network answers the exchange
  (under the default timeout) and the body resumes.
\<close>

definition await_refresh :: "nat \<Rightarrow> world \<Rightarrow> world \<times> jsval" where
  "await_refresh p w =
     (case promises w ! p of
        Fulfilled v \<Rightarrow> (w, v)
      | Pending _ i \<Rightarrow>
          (case fetch_result DEFAULT_TIMEOUT (net w i) of
             (ms, r) \<Rightarrow> refresh_settle p r (w\<lparr>clock := clock w + int ms\<rparr>)))"

definition refreshTokens :: "world \<Rightarrow> world \<times> jsval" where
  "refreshTokens w = (case refreshTokens_call w of (w1, p) \<Rightarrow> await_refresh p w1)"

definition getValidToken :: "world \<Rightarrow> world \<times> jsval" where
  "getValidToken w =
     (let accessTok = accessToken (getTokens w)
      in if \<not> truthy accessTok then refreshTokens w
         else if isAccessExpired w then refreshTokens w
         else (w, accessTok))"

subsection \<open>\<^verbatim>\<open>fetchWithAuth\<close>, the authorized request executor\<close>

definition getTimeoutForEndpoint :: "string \<Rightarrow> nat" where
  "getTimeoutForEndpoint pathOrUrl =
     (if js_includes pathOrUrl ''/api/chat'' then CHAT_TIMEOUT else DEFAULT_TIMEOUT)"

definition fullUrl_of :: "string \<Rightarrow> world \<Rightarrow> js_error + string" where
  "fullUrl_of pathOrUrl w =
     (if startsWith pathOrUrl ''http'' then Inr pathOrUrl
      else (case apiBase w of Inl err \<Rightarrow> Inl err | Inr base \<Rightarrow> Inr (base @ pathOrUrl)))"

text \<open>The headers and the \<^verbatim>\<open>RequestInit\<close> that the executor passes on.\<close>

definition auth_headers :: "request_init option \<Rightarrow> jsval \<Rightarrow> string \<rightharpoonup> string" where
  "auth_headers init token =
     (let h0 = (case init of None \<Rightarrow> Map.empty | Some i \<Rightarrow> init_headers i);
          h1 = h0(''accept'' \<mapsto> ''application/json'')
      in if truthy token then h1(''authorization'' \<mapsto> ''Bearer '' @ js_String token) else h1)"

definition auth_request :: "string \<Rightarrow> request_init option \<Rightarrow> jsval \<Rightarrow> request" where
  "auth_request fullUrl init token =
     \<lparr>url = fullUrl,
      req_method = (case init of None \<Rightarrow> None | Some i \<Rightarrow> init_method i),
      req_headers = auth_headers init token,
      req_body = (case init of None \<Rightarrow> None | Some i \<Rightarrow> init_body i),
      mode = ''cors'',
      credentials = ''omit''\<rparr>"

text \<open>The \<^verbatim>\<open>catch\<close> block rethrows in both branches; they differ in the console line.\<close>

definition api_catch :: "js_error \<Rightarrow> world \<Rightarrow> world" where
  "api_catch err w =
     (if js_includes (err_message err) ''Authentication'' then w
      else w\<lparr>console := console w @ [''API request error: '' @ err_message err]\<rparr>)"

function fetchWithAuth ::
  "string \<Rightarrow> request_init option \<Rightarrow> nat \<Rightarrow> world \<Rightarrow> world \<times> (js_error + response)" where
  "fetchWithAuth pathOrUrl init retryCount w =
     (case fullUrl_of pathOrUrl w of
        Inl err \<Rightarrow> (w, Inl err)
      | Inr fullUrl \<Rightarrow>
          (case getValidToken w of
             (w1, token) \<Rightarrow>
               if \<not> truthy token \<and> retryCount = 0
               then (handleAuthError ''No valid token available'' w1, Inl (Error ''Authentication required''))
               else
                 (case fetchWithTimeout (Attempt retryCount) (auth_request fullUrl init token)
                         (getTimeoutForEndpoint pathOrUrl) w1 of
                    (w2, Inl err) \<Rightarrow> (api_catch err w2, Inl err)
                  | (w2, Inr res) \<Rightarrow>
                      if status res = 401 \<and> retryCount = 0 then
                        (case refreshTokens w2 of
                           (w3, newToken) \<Rightarrow>
                             if \<not> truthy newToken
                             then (handleAuthError ''Token refresh failed'' w3, Inl (Error ''Authentication failed''))
                             else fetchWithAuth pathOrUrl init (retryCount + 1) w3)
                      else if status res = 401 \<or> status res = 403
                      then (handleAuthError (''Auth error: '' @ nat_to_string (status res)) w2, Inr res)
                      else (w2, Inr res))))"
  by pat_completeness auto
termination
  by (relation "measure (\<lambda>(pathOrUrl, init, retryCount, w). if retryCount = 0 then 1 else 0)") auto

declare fetchWithAuth.simps [simp del]

section \<open>Interleaved callers of the coordinator\<close>

text \<open>
  The page runs on one thread: code runs from one suspension point to the next without
  interruption, and between two such runs anything else may happen. For the coordinator
  the runs are: a caller invokes \<^verbatim>\<open>refreshTokens\<close> and gets a promise (\<open>Invoke\<close>); the
  exchange behind a promise settles and the body resumes (\<open>Settle\<close>); time passes
  (\<open>Tick\<close>); other code or another tab writes the store (\<open>SetItem\<close>, \<open>RemoveItem\<close>). The
  state is the world and the promises handed to the callers so far, in order.
\<close>

datatype event =
    Invoke
  | Settle nat "js_error + response"
  | Tick nat
  | SetItem string string
  | RemoveItem string

fun is_settle :: "event \<Rightarrow> bool" where
  "is_settle (Settle _ _) = True"
| "is_settle _ = False"

fun step :: "event \<Rightarrow> world \<times> nat list \<Rightarrow> world \<times> nat list" where
  "step Invoke (w, ps) = (case refreshTokens_call w of (w1, p) \<Rightarrow> (w1, ps @ [p]))"
| "step (Settle p r) (w, ps) =
     (if p < length (promises w) then (fst (refresh_settle p r w), ps) else (w, ps))"
| "step (Tick ms) (w, ps) = (w\<lparr>clock := clock w + int ms\<rparr>, ps)"
| "step (SetItem k v) (w, ps) = (w\<lparr>localStorage := (localStorage w)(k \<mapsto> v)\<rparr>, ps)"
| "step (RemoveItem k) (w, ps) = (w\<lparr>localStorage := (localStorage w)(k := None)\<rparr>, ps)"

definition run :: "event list \<Rightarrow> world \<times> nat list \<Rightarrow> world \<times> nat list" where
  "run es s = foldl (\<lambda>s e. step e s) s es"

text \<open>An exchange is in flight for every pending promise.\<close>

fun is_pending :: "pstate \<Rightarrow> bool" where
  "is_pending (Pending _ _) = True"
| "is_pending (Fulfilled _) = False"

definition in_flight :: "world \<Rightarrow> nat" where
  "in_flight w = length (filter is_pending (promises w))"

text \<open>The handle points at every promise that is still pending.\<close>

definition handle_tracks_pending :: "world \<Rightarrow> bool" where
  "handle_tracks_pending w =
     (\<forall>i < length (promises w). is_pending (promises w ! i) \<longrightarrow> refreshPromise w = Some i)"

text \<open>Nothing in this layer changes the page: whether there is a window, and which path it shows.\<close>

definition same_page :: "world \<Rightarrow> world \<Rightarrow> bool" where
  "same_page w w' = (has_window w' = has_window w \<and> pathname w' = pathname w)"

section \<open>What the logs say\<close>

text \<open>The retry counters of the requests the executor has sent, oldest first.\<close>

fun attempt_no :: "origin \<times> request \<Rightarrow> nat option" where
  "attempt_no (Attempt k, _) = Some k"
| "attempt_no (RefreshExchange, _) = None"

definition attempts :: "world \<Rightarrow> nat list" where
  "attempts w = List.map_filter attempt_no (sent w)"

text \<open>The store holds none of the three fields.\<close>

definition store_cleared :: "world \<Rightarrow> bool" where
  "store_cleared w =
     (localStorage w ACCESS_KEY = None \<and> localStorage w REFRESH_KEY = None \<and> localStorage w EXP_KEY = None)"

section \<open>Worlds for concrete runs\<close>

definition new_pair :: json_body where
  "new_pair = JsonObj \<lparr>access_token = Str ''A2'', refresh_token = Undefined,
                        expires_in = Some 900, message = Undefined\<rparr>"

text \<open>
  A signed-in page on \<^verbatim>\<open>/chat\<close> at instant 100000 whose access credential expired at 99000;
  the refresh credential has no dot, so its payload cannot be decoded. The backend answers
  the first request with a new pair and every later one with status 200.
\<close>

definition page :: world where
  "page =
     \<lparr>has_window = True,
      env_base = Some ''https://api.test'',
      pathname = ''/chat'',
      decode_exp = (\<lambda>_. Throws),
      net = (\<lambda>i. if i = 0 then Reply 20 \<lparr>status = 200, body = new_pair\<rparr>
                   else Reply 30 \<lparr>status = 200, body = JsonNull\<rparr>),
      clock = 100000,
      localStorage = [''access_token'' \<mapsto> ''A1'', ''refresh_token'' \<mapsto> ''R1'', ''access_expiry'' \<mapsto> ''99000''],
      refreshPromise = None,
      promises = [],
      sent = [],
      navigations = [],
      console = []\<rparr>"

text \<open>The same page with a valid access credential that expires at 50000, read at 40000:
  exactly ten seconds before.\<close>

definition page_at_margin :: world where
  "page_at_margin =
     page\<lparr>clock := 40000,
          localStorage := [''access_token'' \<mapsto> ''A1'', ''refresh_token'' \<mapsto> ''R1'', ''access_expiry'' \<mapsto> ''50000'']\<rparr>"

text \<open>The landing page \<^verbatim>\<open>/\<close> of a visitor who is signed out: the store is empty.\<close>

definition signed_out :: world where
  "signed_out = page\<lparr>pathname := ''/'', localStorage := Map.empty\<rparr>"

text \<open>A backend that answers every request with status 401.\<close>

definition page_rejected :: world where
  "page_rejected =
     page\<lparr>net := (\<lambda>i. Reply 20 \<lparr>status = 401, body = JsonNull\<rparr>),
          localStorage := [''access_token'' \<mapsto> ''A1'', ''refresh_token'' \<mapsto> ''R1'', ''access_expiry'' \<mapsto> ''900000'']\<rparr>"

text \<open>
  The page with a refresh credential in three segments whose middle one is the base64 text
  of \<^verbatim>\<open>{"exp":200}\<close>: the credential expires at instant 200000.
\<close>

definition page_jwt :: world where
  "page_jwt =
     page\<lparr>decode_exp := (\<lambda>seg. if seg = ''eyJleHAiOjIwMH0'' then Exp 200 else Throws),
          localStorage := [''access_token'' \<mapsto> ''A1'', ''refresh_token'' \<mapsto> ''h.eyJleHAiOjIwMH0.s'',
                           ''access_expiry'' \<mapsto> ''99000'']\<rparr>"

text \<open>
  The page with a refresh credential whose middle segment is the base64 text of \<^verbatim>\<open>{}\<close>:
  it decodes, and there is no \<^verbatim>\<open>exp\<close> in it.
\<close>

definition page_no_exp :: world where
  "page_no_exp =
     page\<lparr>decode_exp := (\<lambda>seg. if seg = ''e30'' then ExpNaN else Throws),
          localStorage := [''access_token'' \<mapsto> ''A1'', ''refresh_token'' \<mapsto> ''h.e30.s'',
                           ''access_expiry'' \<mapsto> ''99000'']\<rparr>"

text \<open>A backend that needs 35 seconds for every answer.\<close>

definition page_slow :: world where
  "page_slow =
     page\<lparr>net := (\<lambda>i. Reply 35000 \<lparr>status = 200, body = JsonNull\<rparr>),
          localStorage := [''access_token'' \<mapsto> ''A1'', ''refresh_token'' \<mapsto> ''R1'', ''access_expiry'' \<mapsto> ''900000'']\<rparr>"

text \<open>
  A backend that rejects the executor's requests with status 401 but serves the refresh
  exchange, which is the second request it sees.
\<close>

definition page_401_twice :: world where
  "page_401_twice =
     page\<lparr>net := (\<lambda>i. if i = 1 then Reply 20 \<lparr>status = 200, body = new_pair\<rparr>
                        else Reply 20 \<lparr>status = 401, body = JsonNull\<rparr>),
          localStorage := [''access_token'' \<mapsto> ''A1'', ''refresh_token'' \<mapsto> ''R1'', ''access_expiry'' \<mapsto> ''900000'']\<rparr>"

text \<open>
  A backend that rejects the executor's request with status 401 and answers the refresh
  exchange with status 200 and an object that holds no access credential.
\<close>

definition empty_pair :: json_body where
  "empty_pair = JsonObj \<lparr>access_token = Undefined, refresh_token = Undefined,
                          expires_in = Some 900, message = Undefined\<rparr>"

definition page_empty_renewal :: world where
  "page_empty_renewal =
     page\<lparr>net := (\<lambda>i. if i = 1 then Reply 20 \<lparr>status = 200, body = empty_pair\<rparr>
                        else Reply 20 \<lparr>status = 401, body = JsonNull\<rparr>),
          localStorage := [''access_token'' \<mapsto> ''A1'', ''refresh_token'' \<mapsto> ''R1'', ''access_expiry'' \<mapsto> ''900000'']\<rparr>"

text \<open>
  A backend whose new access credentials live for five seconds, less than the margin of
  \<^verbatim>\<open>isAccessExpired\<close>; it serves one refresh exchange and rejects the next.
\<close>

definition short_pair :: json_body where
  "short_pair = JsonObj \<lparr>access_token = Str ''A2'', refresh_token = Undefined,
                          expires_in = Some 5, message = Undefined\<rparr>"

definition page_short_lived :: world where
  "page_short_lived =
     page\<lparr>net := (\<lambda>i. if i = 0 then Reply 20 \<lparr>status = 401, body = JsonNull\<rparr>
                        else if i = 1 then Reply 20 \<lparr>status = 200, body = short_pair\<rparr>
                        else if i = 2 then Reply 20 \<lparr>status = 401, body = JsonNull\<rparr>
                        else Reply 20 \<lparr>status = 200, body = JsonNull\<rparr>),
          localStorage := [''access_token'' \<mapsto> ''A1'', ''refresh_token'' \<mapsto> ''R1'', ''access_expiry'' \<mapsto> ''900000'']\<rparr>"

text \<open>
  The signed-out visitor asks for a renewal on the landing page; then signs in (the
  sign-in form calls \<^verbatim>\<open>setTokens\<close> and moves to \<^verbatim>\<open>/chat\<close> inside the same page); the new
  access credential has expired when the next request is made at 1100000.
\<close>

definition after_failed_renewal :: world where
  "after_failed_renewal = fst (refreshTokens signed_out)"

definition signed_in_again :: world where
  "signed_in_again =
     (setTokens (Str ''A3'') (Str ''R3'') 1000000 after_failed_renewal)\<lparr>pathname := ''/chat'', clock := 1100000\<rparr>"

section \<open>Decimal text: printing and parsing agree\<close>

lemma of_char_digit_char:
  assumes "d < 10"
  shows "(of_char (digit_char d) :: nat) = 48 + d"
proof -
  from assms consider "d = 0" | "d = 1" | "d = 2" | "d = 3" | "d = 4"
    | "d = 5" | "d = 6" | "d = 7" | "d = 8" | "d = 9"
    by atomize_elim arith
  then show ?thesis
    by cases (simp_all add: digit_char_def)
qed

lemma is_digit_digit_char: "d < 10 \<Longrightarrow> is_digit (digit_char d)"
  by (simp add: is_digit_def of_char_digit_char)

lemma digit_val_digit_char: "d < 10 \<Longrightarrow> digit_val (digit_char d) = d"
  by (simp add: digit_val_def of_char_digit_char)

lemma is_digit_not_ws: "is_digit c \<Longrightarrow> \<not> is_ws c"
  by (auto simp: is_digit_def is_ws_def)

lemma is_digit_not_sign: "is_digit c \<Longrightarrow> c \<noteq> CHR ''-'' \<and> c \<noteq> CHR ''+''"
  by (auto simp: is_digit_def)

lemma nat_to_string_digits: "\<forall>c \<in> set (nat_to_string n). is_digit c"
proof (induction n rule: nat_to_string.induct)
  case (1 n)
  show ?case
  proof (cases "n < 10")
    case True
    then show ?thesis by (subst nat_to_string.simps) (simp add: is_digit_digit_char)
  next
    case False
    with 1 show ?thesis by (subst nat_to_string.simps) (simp add: is_digit_digit_char)
  qed
qed

lemma nat_to_string_nonempty: "nat_to_string n \<noteq> []"
  by (subst nat_to_string.simps) simp

lemma digits_value_snoc: "digits_value (ds @ [c]) = 10 * digits_value ds + digit_val c"
  by (simp add: digits_value_def)

lemma digits_value_nat_to_string: "digits_value (nat_to_string n) = n"
proof (induction n rule: nat_to_string.induct)
  case (1 n)
  show ?case
  proof (cases "n < 10")
    case True
    then show ?thesis
      by (subst nat_to_string.simps) (simp add: digits_value_def digit_val_digit_char)
  next
    case False
    with 1 have "digits_value (nat_to_string (n div 10)) = n div 10" by simp
    with False show ?thesis
      by (subst nat_to_string.simps) (simp add: digits_value_snoc digit_val_digit_char)
  qed
qed

lemma takeWhile_all: "\<forall>c \<in> set xs. P c \<Longrightarrow> takeWhile P xs = xs"
  by (induction xs) auto

lemma parseInt_digits:
  assumes "ds \<noteq> []" "\<forall>c \<in> set ds. is_digit c"
  shows "parseInt ds = Some (int (digits_value ds))"
proof -
  obtain c cs where cs: "ds = c # cs"
    using assms(1) by (cases ds) auto
  have c: "is_digit c" using assms(2) by (simp add: cs)
  have rest: "\<forall>x \<in> set cs. is_digit x"
    using assms(2) by (simp add: cs)
  show ?thesis
    using c rest is_digit_not_ws [OF c] is_digit_not_sign [OF c]
    by (simp add: parseInt_def cs takeWhile_all)
qed

lemma parseInt_minus_digits:
  assumes "ds \<noteq> []" "\<forall>c \<in> set ds. is_digit c"
  shows "parseInt (CHR ''-'' # ds) = Some (- int (digits_value ds))"
proof -
  have ws: "\<not> is_ws CHR ''-''" by (simp add: is_ws_def)
  show ?thesis
    using ws assms by (simp add: parseInt_def takeWhile_all)
qed

lemma parseInt_String_of_int: "parseInt (String_of_int i) = Some i"
proof (cases "i < 0")
  case False
  then show ?thesis
    by (simp add: String_of_int_def parseInt_digits nat_to_string_nonempty
        nat_to_string_digits digits_value_nat_to_string)
next
  case True
  then show ?thesis
    by (simp add: String_of_int_def parseInt_minus_digits nat_to_string_nonempty
        nat_to_string_digits digits_value_nat_to_string)
qed

lemma String_of_int_nonempty: "String_of_int i \<noteq> []"
  by (simp add: String_of_int_def nat_to_string_nonempty)

lemma getTokens_expiry:
  assumes "has_window w" "localStorage w EXP_KEY = Some (String_of_int e)"
  shows "accessExpiry (getTokens w) = (if e = 0 then None else Some e)"
proof -
  have "js_String (js_or (getItem w EXP_KEY) (Str ''0'')) = String_of_int e"
    using assms(2) by (simp add: getItem_def js_or_def String_of_int_nonempty)
  then show ?thesis
    using assms(1) by (simp add: getTokens_def parseInt_String_of_int)
qed

lemma getTokens_no_expiry:
  assumes "localStorage w EXP_KEY = None"
  shows "accessExpiry (getTokens w) = None"
proof -
  have z: "parseInt ''0'' = Some 0"
    by (simp add: parseInt_def is_ws_def is_digit_def digits_value_def digit_val_def)
  have "js_String (js_or (getItem w EXP_KEY) (Str ''0'')) = ''0''"
    using assms by (simp add: getItem_def js_or_def)
  then show ?thesis
    by (simp add: getTokens_def z)
qed

lemma getTokens_expiry_nonzero: "accessExpiry (getTokens w) \<noteq> Some 0"
  by (simp add: getTokens_def split: option.splits)

lemma String_50000: "String_of_int 50000 = ''50000''"
  by (simp add: String_of_int_def nat_to_string.simps digit_char_def)

lemma page_at_margin_expiry: "accessExpiry (getTokens page_at_margin) = Some 50000"
  by (simp add: page_at_margin_def page_def getTokens_def getItem_def js_or_def EXP_KEY_def
      parseInt_def is_ws_def is_digit_def digits_value_def digit_val_def)

section \<open>The credential store: expiry with a margin\<close>

text \<open>
  C5, as the specification words it: \<^verbatim>\<open>isAccessExpired()\<close> is true exactly when
  \<open>now \<ge> expiry - 10 s\<close>. The code compares with \<^verbatim>\<open>>\<close>: at the instant that lies exactly
  ten seconds before the recorded expiry (expiry 50000, now 40000) it answers false.
\<close>

theorem isAccessExpired_at_margin:
  "accessExpiry (getTokens page_at_margin) = Some 50000 \<and>
   clock page_at_margin \<ge> 50000 - 10000 \<and>
   \<not> isAccessExpired page_at_margin"
  by (simp add: isAccessExpired_def page_at_margin_expiry) (simp add: page_at_margin_def page_def)

text \<open>
  C5, amended: \<^verbatim>\<open>isAccessExpired()\<close> is true whenever no expiry is recorded (none stored,
  or one that reads as 0 or as no number), and for a recorded expiry \<open>e\<close> it is true
  exactly when \<open>now > e - 10 s\<close>. The last conjunct says the same of the text that
  \<^verbatim>\<open>setTokens\<close> stores for \<open>e\<close>.
\<close>

theorem isAccessExpired_skew:
  "(accessExpiry (getTokens w) = None \<longrightarrow> isAccessExpired w) \<and>
   (accessExpiry (getTokens w) = Some e \<longrightarrow> isAccessExpired w = (clock w > e - 10000)) \<and>
   (has_window w \<and> localStorage w EXP_KEY = Some (String_of_int e) \<and> e \<noteq> 0 \<longrightarrow>
      isAccessExpired w = (clock w > e - 10000))"
  using getTokens_expiry_nonzero [of w]
  by (auto simp add: isAccessExpired_def getTokens_expiry)

text \<open>
  C5, amended, at the recorded expiry 50000: false at 40000, true one millisecond later,
  and true once the store is empty.
\<close>

theorem isAccessExpired_skew_witness:
  "has_window page_at_margin \<and>
   localStorage page_at_margin EXP_KEY = Some (String_of_int 50000) \<and>
   accessExpiry (getTokens page_at_margin) = Some 50000 \<and>
   \<not> isAccessExpired page_at_margin \<and>
   isAccessExpired (page_at_margin\<lparr>clock := 40001\<rparr>) \<and>
   isAccessExpired (page_at_margin\<lparr>localStorage := Map.empty\<rparr>)"
proof -
  have a: "has_window page_at_margin"
    by (simp add: page_at_margin_def page_def)
  have b: "localStorage page_at_margin EXP_KEY = Some (String_of_int 50000)"
    by (simp add: page_at_margin_def page_def EXP_KEY_def String_50000)
  have c: "has_window (page_at_margin\<lparr>clock := 40001\<rparr>)"
    "localStorage (page_at_margin\<lparr>clock := 40001\<rparr>) EXP_KEY = Some (String_of_int 50000)"
    using a b by simp_all
  have d: "accessExpiry (getTokens (page_at_margin\<lparr>localStorage := Map.empty\<rparr>)) = None"
    by (simp add: getTokens_no_expiry)
  have clk: "clock page_at_margin = 40000"
    by (simp add: page_at_margin_def)
  show ?thesis
    using a b page_at_margin_expiry clk isAccessExpired_skew [of page_at_margin 50000]
      isAccessExpired_skew [of "page_at_margin\<lparr>clock := 40001\<rparr>" 50000] c
      isAccessExpired_skew [of "page_at_margin\<lparr>localStorage := Map.empty\<rparr>" 0] d
    by simp
qed

section \<open>Unfolding the model on concrete worlds\<close>

lemmas store_defs = getTokens_def getItem_def js_or_def ACCESS_KEY_def REFRESH_KEY_def EXP_KEY_def
  setTokens_def clearTokens_def isAccessExpired_def isRefreshTokenValid_def payload_exp_def
  handleAuthError_def parseInt_def is_ws_def is_digit_def digits_value_def digit_val_def
  String_of_int_def nat_to_string.simps digit_char_def store_cleared_def

lemmas api_defs = apiBase_def trim_def DEFAULT_TIMEOUT_def CHAT_TIMEOUT_def net_result_def
  abortable_fetch_def fetch_result_def fetchWithTimeout_def refresh_catch_def refresh_finally_def
  refresh_body_start_def refreshTokens_call_def refresh_try_def refresh_body_resume_def
  refresh_settle_def await_refresh_def refreshTokens_def getValidToken_def
  getTimeoutForEndpoint_def fullUrl_of_def api_catch_def js_includes_def startsWith_def ok_def
  auth_request_def auth_headers_def refresh_request_def attempts_def map_filter_def Let_def

section \<open>The credential store: the refresh credential\<close>

text \<open>
  C6: for a stored refresh credential, \<^verbatim>\<open>isRefreshTokenValid()\<close> decodes the expiry
  claim and is true exactly when more than five seconds remain before that expiry (the
  claim \<open>e\<close> is in seconds, the clock in milliseconds); when the decoding throws, it is
  true. A payload that decodes and holds no numeric \<^verbatim>\<open>exp\<close> is no decoding failure:
  its expiry is \<^verbatim>\<open>NaN\<close>, no margin remains before it, and the answer is false.
\<close>

theorem isRefreshTokenValid_margin:
  assumes "has_window w" "localStorage w REFRESH_KEY = Some rt" "rt \<noteq> []"
  shows "(payload_exp w rt = Throws \<longrightarrow> isRefreshTokenValid w) \<and>
         (payload_exp w rt = Exp e \<longrightarrow> isRefreshTokenValid w = (e * 1000 - clock w > 5000)) \<and>
         (payload_exp w rt = ExpNaN \<longrightarrow> \<not> isRefreshTokenValid w)"
proof -
  have "refreshToken (getTokens w) = Str rt"
    using assms(1,2) by (simp add: getTokens_def getItem_def)
  then show ?thesis
    using assms(3) by (auto simp add: isRefreshTokenValid_def)
qed

lemma page_payload: "payload_exp page ''R1'' = Throws"
  by (simp add: payload_exp_def)

lemma page_jwt_payload: "payload_exp page_jwt ''h.eyJleHAiOjIwMH0.s'' = Exp 200"
  by (simp add: payload_exp_def page_jwt_def page_def)

lemma page_no_exp_payload: "payload_exp page_no_exp ''h.e30.s'' = ExpNaN"
  by (simp add: payload_exp_def page_no_exp_def page_def)

text \<open>
  C6 at three stored credentials: one without a dot, whose decoding throws; one that
  expires at 200000, read at 100000 and again at 195000, where five seconds remain and
  the margin is no longer met; and one whose payload is \<^verbatim>\<open>{}\<close>.
\<close>

theorem isRefreshTokenValid_margin_witness:
  "has_window page \<and> localStorage page REFRESH_KEY = Some ''R1'' \<and>
   payload_exp page ''R1'' = Throws \<and> isRefreshTokenValid page \<and>
   has_window page_jwt \<and> localStorage page_jwt REFRESH_KEY = Some ''h.eyJleHAiOjIwMH0.s'' \<and>
   payload_exp page_jwt ''h.eyJleHAiOjIwMH0.s'' = Exp 200 \<and>
   isRefreshTokenValid page_jwt \<and>
   \<not> isRefreshTokenValid (page_jwt\<lparr>clock := 195000\<rparr>) \<and>
   has_window page_no_exp \<and> localStorage page_no_exp REFRESH_KEY = Some ''h.e30.s'' \<and>
   payload_exp page_no_exp ''h.e30.s'' = ExpNaN \<and>
   \<not> isRefreshTokenValid page_no_exp"
proof -
  have a: "has_window page" "localStorage page REFRESH_KEY = Some ''R1''"
    by (simp_all add: page_def REFRESH_KEY_def)
  have b: "has_window page_jwt" "localStorage page_jwt REFRESH_KEY = Some ''h.eyJleHAiOjIwMH0.s''"
    "clock page_jwt = 100000"
    by (simp_all add: page_jwt_def page_def REFRESH_KEY_def)
  have c: "has_window (page_jwt\<lparr>clock := 195000\<rparr>)"
    "localStorage (page_jwt\<lparr>clock := 195000\<rparr>) REFRESH_KEY = Some ''h.eyJleHAiOjIwMH0.s''"
    "payload_exp (page_jwt\<lparr>clock := 195000\<rparr>) ''h.eyJleHAiOjIwMH0.s'' = Exp 200"
    using b page_jwt_payload by (simp_all add: payload_exp_def)
  have d: "has_window page_no_exp" "localStorage page_no_exp REFRESH_KEY = Some ''h.e30.s''"
    by (simp_all add: page_no_exp_def page_def REFRESH_KEY_def)
  show ?thesis
    using a b c d page_payload page_jwt_payload page_no_exp_payload
      isRefreshTokenValid_margin [OF a(1) a(2), of 0]
      isRefreshTokenValid_margin [OF b(1) b(2), of 200]
      isRefreshTokenValid_margin [OF c(1) c(2), of 200]
      isRefreshTokenValid_margin [OF d(1) d(2), of 0]
    by simp
qed

section \<open>What each operation leaves untouched\<close>

lemma attempts_snoc_attempt: "attempts (w\<lparr>sent := sent w0 @ [(Attempt k, req)]\<rparr>) = attempts (w\<lparr>sent := sent w0\<rparr>) @ [k]"
  by (simp add: attempts_def map_filter_def)

lemma attempts_snoc_refresh: "attempts (w\<lparr>sent := sent w0 @ [(RefreshExchange, req)]\<rparr>) = attempts (w\<lparr>sent := sent w0\<rparr>)"
  by (simp add: attempts_def map_filter_def)

lemma attempts_cong: "sent w' = sent w \<Longrightarrow> attempts w' = attempts w"
  by (simp add: attempts_def)

lemma sent_setTokens [simp]: "sent (setTokens a r e w) = sent w"
  by (simp add: setTokens_def)

lemma sent_clearTokens [simp]: "sent (clearTokens w) = sent w"
  by (simp add: clearTokens_def)

lemma sent_handleAuthError [simp]: "sent (handleAuthError m w) = sent w"
  by (simp add: handleAuthError_def Let_def)

lemma sent_refresh_catch [simp]: "sent (refresh_catch err w) = sent w"
  by (simp add: refresh_catch_def)

lemma sent_refresh_finally [simp]: "sent (refresh_finally w) = sent w"
  by (simp add: refresh_finally_def)

lemma attempts_refresh_body_start: "attempts (fst (refresh_body_start w)) = attempts w"
  by (simp add: refresh_body_start_def Let_def attempts_def map_filter_def split: sum.splits)

lemma attempts_refreshTokens_call: "attempts (fst (refreshTokens_call w)) = attempts w"
proof (cases "refreshPromise w")
  case None
  obtain w1 st where b: "refresh_body_start w = (w1, st)"
    by (cases "refresh_body_start w")
  have "attempts w1 = attempts w"
    using attempts_refresh_body_start [of w] by (simp add: b)
  then show ?thesis
    by (simp add: refreshTokens_call_def None b attempts_def)
next
  case (Some p)
  then show ?thesis by (simp add: refreshTokens_call_def)
qed

lemma sent_refresh_body_resume [simp]: "sent (fst (refresh_body_resume rt r w)) = sent w"
  by (simp add: refresh_body_resume_def refresh_try_def Let_def
      split: sum.splits json_body.splits prod.splits)

lemma sent_refresh_settle [simp]: "sent (fst (refresh_settle p r w)) = sent w"
proof (cases "promises w ! p")
  case (Pending rt i)
  obtain w1 v where b: "refresh_body_resume rt r w = (w1, v)"
    by (cases "refresh_body_resume rt r w")
  have "sent w1 = sent w"
    using sent_refresh_body_resume [of rt r w] by (simp add: b)
  then show ?thesis
    by (simp add: refresh_settle_def Pending b)
next
  case (Fulfilled v)
  then show ?thesis by (simp add: refresh_settle_def)
qed

lemma sent_await_refresh [simp]: "sent (fst (await_refresh p w)) = sent w"
  by (simp add: await_refresh_def split: pstate.splits prod.splits)

lemma attempts_refreshTokens: "attempts (fst (refreshTokens w)) = attempts w"
proof -
  obtain w1 p where c: "refreshTokens_call w = (w1, p)"
    by (cases "refreshTokens_call w")
  have "attempts w1 = attempts w"
    using attempts_refreshTokens_call [of w] by (simp add: c)
  moreover have "attempts (fst (await_refresh p w1)) = attempts w1"
    by (rule attempts_cong) simp
  ultimately show ?thesis
    by (simp add: refreshTokens_def c)
qed

lemma attempts_getValidToken: "attempts (fst (getValidToken w)) = attempts w"
  by (simp add: getValidToken_def Let_def attempts_refreshTokens)

lemma attempts_handleAuthError [simp]: "attempts (handleAuthError m w) = attempts w"
  by (simp add: attempts_def)

lemma attempts_api_catch [simp]: "attempts (api_catch err w) = attempts w"
  by (simp add: attempts_def api_catch_def)

lemma attempts_fetchWithTimeout:
  "attempts (fst (fetchWithTimeout (Attempt k) req t w)) = attempts w @ [k]"
  by (simp add: fetchWithTimeout_def attempts_def map_filter_def split: prod.splits)

text \<open>What \<^verbatim>\<open>handleAuthError\<close> leaves behind in a browser.\<close>

lemma handleAuthError_reported:
  assumes "has_window w"
  shows "store_cleared (handleAuthError m w) \<and>
         console (handleAuthError m w) = console w @ [''Auth error: '' @ m] \<and>
         navigations (handleAuthError m w) =
           (if pathname w \<noteq> ''/login'' \<and> pathname w \<noteq> ''/signup'' \<and> pathname w \<noteq> ''/''
            then navigations w @ [''/login''] else navigations w)"
  using assms
  by (simp add: handleAuthError_def clearTokens_def store_cleared_def Let_def
      ACCESS_KEY_def REFRESH_KEY_def EXP_KEY_def)

text \<open>Nothing in this layer changes the environment.\<close>


lemma same_page_refl [simp]: "same_page w w"
  by (simp add: same_page_def)

lemma same_page_trans: "same_page w w1 \<Longrightarrow> same_page w1 w2 \<Longrightarrow> same_page w w2"
  by (simp add: same_page_def)

lemma same_page_handleAuthError [simp]: "same_page w (handleAuthError m w)"
  by (simp add: same_page_def handleAuthError_def clearTokens_def Let_def)

lemma same_page_setTokens [simp]: "same_page w (setTokens a r e w)"
  by (simp add: same_page_def setTokens_def)

lemma same_page_refresh_body_start: "same_page w (fst (refresh_body_start w))"
  using same_page_handleAuthError [of w]
  by (auto simp add: refresh_body_start_def Let_def refresh_finally_def refresh_catch_def
      same_page_def handleAuthError_def clearTokens_def split: sum.splits)

lemma same_page_refreshTokens_call: "same_page w (fst (refreshTokens_call w))"
proof (cases "refreshPromise w")
  case None
  obtain w1 st where b: "refresh_body_start w = (w1, st)"
    by (cases "refresh_body_start w")
  have "same_page w w1"
    using same_page_refresh_body_start [of w] by (simp add: b)
  then show ?thesis
    by (simp add: refreshTokens_call_def None b same_page_def)
next
  case (Some p)
  then show ?thesis by (simp add: refreshTokens_call_def)
qed

lemma same_page_refresh_body_resume: "same_page w (fst (refresh_body_resume rt r w))"
  by (auto simp add: refresh_body_resume_def refresh_try_def Let_def refresh_finally_def
      refresh_catch_def same_page_def handleAuthError_def clearTokens_def setTokens_def
      split: sum.splits json_body.splits prod.splits)

lemma same_page_refresh_settle: "same_page w (fst (refresh_settle p r w))"
proof (cases "promises w ! p")
  case (Pending rt i)
  obtain w1 v where b: "refresh_body_resume rt r w = (w1, v)"
    by (cases "refresh_body_resume rt r w")
  have "same_page w w1"
    using same_page_refresh_body_resume [of w rt r] by (simp add: b)
  then show ?thesis
    by (simp add: refresh_settle_def Pending b same_page_def)
next
  case (Fulfilled v)
  then show ?thesis by (simp add: refresh_settle_def)
qed

lemma same_page_await_refresh: "same_page w (fst (await_refresh p w))"
proof (cases "promises w ! p")
  case (Pending rt i)
  obtain ms r where f: "fetch_result DEFAULT_TIMEOUT (net w i) = (ms, r)"
    by (cases "fetch_result DEFAULT_TIMEOUT (net w i)")
  have "same_page (w\<lparr>clock := clock w + int ms\<rparr>) (fst (refresh_settle p r (w\<lparr>clock := clock w + int ms\<rparr>)))"
    by (rule same_page_refresh_settle)
  then show ?thesis
    by (simp add: await_refresh_def Pending f same_page_def)
next
  case (Fulfilled v)
  then show ?thesis by (simp add: await_refresh_def)
qed

lemma same_page_refreshTokens: "same_page w (fst (refreshTokens w))"
proof -
  obtain w1 p where c: "refreshTokens_call w = (w1, p)"
    by (cases "refreshTokens_call w")
  have "same_page w w1"
    using same_page_refreshTokens_call [of w] by (simp add: c)
  moreover have "same_page w1 (fst (await_refresh p w1))"
    by (rule same_page_await_refresh)
  ultimately show ?thesis
    by (simp add: refreshTokens_def c same_page_def)
qed

lemma same_page_getValidToken: "same_page w (fst (getValidToken w))"
  by (simp add: getValidToken_def Let_def same_page_refreshTokens)

lemma same_page_fetchWithTimeout: "same_page w (fst (fetchWithTimeout who req t w))"
  by (simp add: fetchWithTimeout_def same_page_def split: prod.splits)

lemma same_page_api_catch [simp]: "same_page w (api_catch err w)"
  by (simp add: api_catch_def same_page_def)

section \<open>The paths through the executor\<close>

lemma fetchWithAuth_no_token:
  assumes "fullUrl_of p w = Inr u" "getValidToken w = (w1, tok)" "\<not> truthy tok"
  shows "fetchWithAuth p init 0 w =
           (handleAuthError ''No valid token available'' w1, Inl (Error ''Authentication required''))"
  using assms by (subst fetchWithAuth.simps) simp

lemma fetchWithAuth_throws:
  assumes "fullUrl_of p w = Inr u" "getValidToken w = (w1, tok)" "truthy tok \<or> rc \<noteq> 0"
    and "fetchWithTimeout (Attempt rc) (auth_request u init tok) (getTimeoutForEndpoint p) w1 = (w2, Inl err)"
  shows "fetchWithAuth p init rc w = (api_catch err w2, Inl err)"
  using assms by (subst fetchWithAuth.simps) auto

lemma fetchWithAuth_returns:
  assumes "fullUrl_of p w = Inr u" "getValidToken w = (w1, tok)" "truthy tok \<or> rc \<noteq> 0"
    and "fetchWithTimeout (Attempt rc) (auth_request u init tok) (getTimeoutForEndpoint p) w1 = (w2, Inr res)"
    and "status res \<noteq> 401 \<or> rc \<noteq> 0"
  shows "fetchWithAuth p init rc w =
           (if status res = 401 \<or> status res = 403
            then handleAuthError (''Auth error: '' @ nat_to_string (status res)) w2 else w2,
            Inr res)"
  using assms by (subst fetchWithAuth.simps) auto

lemma fetchWithAuth_refresh_failed:
  assumes "fullUrl_of p w = Inr u" "getValidToken w = (w1, tok)" "truthy tok"
    and "fetchWithTimeout (Attempt 0) (auth_request u init tok) (getTimeoutForEndpoint p) w1 = (w2, Inr res)"
    and "status res = 401" "refreshTokens w2 = (w3, newToken)" "\<not> truthy newToken"
  shows "fetchWithAuth p init 0 w =
           (handleAuthError ''Token refresh failed'' w3, Inl (Error ''Authentication failed''))"
  using assms by (subst fetchWithAuth.simps) auto

lemma fetchWithAuth_retries:
  assumes "fullUrl_of p w = Inr u" "getValidToken w = (w1, tok)" "truthy tok"
    and "fetchWithTimeout (Attempt 0) (auth_request u init tok) (getTimeoutForEndpoint p) w1 = (w2, Inr res)"
    and "status res = 401" "refreshTokens w2 = (w3, newToken)" "truthy newToken"
  shows "fetchWithAuth p init 0 w = fetchWithAuth p init 1 w3"
  using assms by (subst fetchWithAuth.simps) auto

text \<open>The shape of one call that does not recurse.\<close>

lemma fetchWithAuth_final_attempt:
  assumes "rc \<noteq> 0" "fetchWithAuth p init rc w = (w', r)"
  shows "(attempts w' = attempts w \<or> attempts w' = attempts w @ [rc]) \<and>
         (\<forall>res. r = Inr res \<and> (status res = 401 \<or> status res = 403) \<longrightarrow>
            (\<exists>w2. w' = handleAuthError (''Auth error: '' @ nat_to_string (status res)) w2 \<and>
                  same_page w w2))"
proof (cases "fullUrl_of p w")
  case (Inl err)
  then have "fetchWithAuth p init rc w = (w, Inl err)"
    by (subst fetchWithAuth.simps) simp
  with assms(2) show ?thesis by auto
next
  case (Inr u)
  obtain w1 tok where g: "getValidToken w = (w1, tok)"
    by (cases "getValidToken w")
  have a1: "attempts w1 = attempts w"
    using attempts_getValidToken [of w] by (simp add: g)
  have p1: "same_page w w1"
    using same_page_getValidToken [of w] by (simp add: g)
  have rc: "truthy tok \<or> rc \<noteq> 0"
    using assms(1) by simp
  obtain w2 x where f: "fetchWithTimeout (Attempt rc) (auth_request u init tok) (getTimeoutForEndpoint p) w1 = (w2, x)"
    by (cases "fetchWithTimeout (Attempt rc) (auth_request u init tok) (getTimeoutForEndpoint p) w1")
  have a2: "attempts w2 = attempts w @ [rc]"
    using attempts_fetchWithTimeout [of rc "auth_request u init tok" "getTimeoutForEndpoint p" w1] a1
    by (simp add: f)
  have p2: "same_page w w2"
    using same_page_fetchWithTimeout [of w1 "Attempt rc" "auth_request u init tok" "getTimeoutForEndpoint p"] p1
    by (simp add: f same_page_def)
  show ?thesis
  proof (cases x)
    case (Inl err)
    have "fetchWithAuth p init rc w = (api_catch err w2, Inl err)"
      using fetchWithAuth_throws [OF Inr g rc f [unfolded Inl]] .
    with assms(2) have "w' = api_catch err w2" "r = Inl err" by simp_all
    with a2 show ?thesis by simp
  next
    case res: (Inr res)
    have st: "status res \<noteq> 401 \<or> rc \<noteq> 0"
      using assms(1) by simp
    have "fetchWithAuth p init rc w =
           (if status res = 401 \<or> status res = 403
            then handleAuthError (''Auth error: '' @ nat_to_string (status res)) w2 else w2,
            Inr res)"
      using fetchWithAuth_returns [OF Inr g rc f [unfolded res] st] .
    with assms(2) have w': "w' = (if status res = 401 \<or> status res = 403
            then handleAuthError (''Auth error: '' @ nat_to_string (status res)) w2 else w2)"
      and r: "r = Inr res" by simp_all
    have "attempts w' = attempts w @ [rc]"
      using a2 by (simp add: w')
    moreover have "status res = 401 \<or> status res = 403 \<Longrightarrow>
        \<exists>w2. w' = handleAuthError (''Auth error: '' @ nat_to_string (status res)) w2 \<and> same_page w w2"
      using w' p2 by auto
    ultimately show ?thesis
      using r by blast
  qed
qed

text \<open>The shape of a first attempt, which may recurse once.\<close>

lemma fetchWithAuth_first_attempt:
  assumes "fetchWithAuth p init 0 w = (w', r)"
  shows "(attempts w' = attempts w \<or> attempts w' = attempts w @ [0] \<or> attempts w' = attempts w @ [0, 1]) \<and>
         (\<forall>res. r = Inr res \<and> (status res = 401 \<or> status res = 403) \<longrightarrow>
            (\<exists>w2. w' = handleAuthError (''Auth error: '' @ nat_to_string (status res)) w2 \<and>
                  same_page w w2))"
proof (cases "fullUrl_of p w")
  case (Inl err)
  then have "fetchWithAuth p init 0 w = (w, Inl err)"
    by (subst fetchWithAuth.simps) simp
  with assms show ?thesis by auto
next
  case (Inr u)
  obtain w1 tok where g: "getValidToken w = (w1, tok)"
    by (cases "getValidToken w")
  have a1: "attempts w1 = attempts w"
    using attempts_getValidToken [of w] by (simp add: g)
  have p1: "same_page w w1"
    using same_page_getValidToken [of w] by (simp add: g)
  show ?thesis
  proof (cases "truthy tok")
    case False
    have "fetchWithAuth p init 0 w =
           (handleAuthError ''No valid token available'' w1, Inl (Error ''Authentication required''))"
      using Inr g False by (rule fetchWithAuth_no_token)
    with assms have "w' = handleAuthError ''No valid token available'' w1" "r = Inl (Error ''Authentication required'')"
      by simp_all
    with a1 show ?thesis by simp
  next
    case True
    then have rc: "truthy tok \<or> (0::nat) \<noteq> 0" by simp
    obtain w2 x where f: "fetchWithTimeout (Attempt 0) (auth_request u init tok) (getTimeoutForEndpoint p) w1 = (w2, x)"
      by (cases "fetchWithTimeout (Attempt 0) (auth_request u init tok) (getTimeoutForEndpoint p) w1")
    have a2: "attempts w2 = attempts w @ [0]"
      using attempts_fetchWithTimeout [of 0 "auth_request u init tok" "getTimeoutForEndpoint p" w1] a1
      by (simp add: f)
    have p2: "same_page w w2"
      using same_page_fetchWithTimeout [of w1 "Attempt 0" "auth_request u init tok" "getTimeoutForEndpoint p"] p1
      by (simp add: f same_page_def)
    show ?thesis
    proof (cases x)
      case (Inl err)
      have "fetchWithAuth p init 0 w = (api_catch err w2, Inl err)"
        using fetchWithAuth_throws [OF Inr g rc f [unfolded Inl]] .
      with assms have "w' = api_catch err w2" "r = Inl err" by simp_all
      with a2 show ?thesis by simp
    next
      case res: (Inr res)
      show ?thesis
      proof (cases "status res = 401")
        case False
        then have st: "status res \<noteq> 401 \<or> (0::nat) \<noteq> 0" by simp
        have "fetchWithAuth p init 0 w =
               (if status res = 401 \<or> status res = 403
                then handleAuthError (''Auth error: '' @ nat_to_string (status res)) w2 else w2,
                Inr res)"
          using fetchWithAuth_returns [OF Inr g rc f [unfolded res] st] .
        with assms have w': "w' = (if status res = 401 \<or> status res = 403
                then handleAuthError (''Auth error: '' @ nat_to_string (status res)) w2 else w2)"
          and r: "r = Inr res" by simp_all
        have "attempts w' = attempts w @ [0]"
          using a2 by (simp add: w')
        moreover have "status res = 401 \<or> status res = 403 \<Longrightarrow>
            \<exists>w2. w' = handleAuthError (''Auth error: '' @ nat_to_string (status res)) w2 \<and> same_page w w2"
          using w' p2 by auto
        ultimately show ?thesis
          using r by blast
      next
        case s401: True
        obtain w3 newToken where rf: "refreshTokens w2 = (w3, newToken)"
          by (cases "refreshTokens w2")
        have a3: "attempts w3 = attempts w @ [0]"
          using attempts_refreshTokens [of w2] a2 by (simp add: rf)
        have p3: "same_page w w3"
          using same_page_refreshTokens [of w2] p2 by (simp add: rf same_page_def)
        show ?thesis
        proof (cases "truthy newToken")
          case False
          have "fetchWithAuth p init 0 w =
                 (handleAuthError ''Token refresh failed'' w3, Inl (Error ''Authentication failed''))"
            using fetchWithAuth_refresh_failed [OF Inr g True f [unfolded res] s401 rf False] .
          with assms have "w' = handleAuthError ''Token refresh failed'' w3"
            "r = Inl (Error ''Authentication failed'')" by simp_all
          with a3 show ?thesis by simp
        next
          case nt: True
          have "fetchWithAuth p init 0 w = fetchWithAuth p init 1 w3"
            using fetchWithAuth_retries [OF Inr g True f [unfolded res] s401 rf nt] .
          with assms have "fetchWithAuth p init 1 w3 = (w', r)" by simp
          from fetchWithAuth_final_attempt [OF _ this] a3 p3 show ?thesis
            by (auto simp add: same_page_def)
        qed
      qed
    qed
  qed
qed

section \<open>Timeouts\<close>

text \<open>
  C7: every destination whose path contains \<^verbatim>\<open>/api/chat\<close> gets no timeout and every
  other one 30 seconds. When the timer fires first, the failure is the error
  \<^verbatim>\<open>Request timeout - API took too long to respond\<close>, also for the caller of the
  executor, while a transport failure that arrives in time is passed on as it is; a
  conversational destination gets its answer however long that takes.
\<close>

theorem timeout_policy:
  "getTimeoutForEndpoint p = (if js_includes p ''/api/chat'' then 0 else 30000) \<and>
   fetch_result 0 out = (latency out, net_result out) \<and>
   (0 < t \<and> t \<le> latency out \<longrightarrow>
      fetch_result t out = (t, Inl (Error ''Request timeout - API took too long to respond''))) \<and>
   (0 < t \<and> latency out < t \<and> out = NetFail ms e \<and> err_name e \<noteq> ''AbortError'' \<longrightarrow>
      fetch_result t out = (ms, Inl e)) \<and>
   (fullUrl_of p w = Inr u \<and> getValidToken w = (w', tok) \<and> (truthy tok \<or> rc \<noteq> 0) \<and>
    \<not> js_includes p ''/api/chat'' \<and> 30000 \<le> latency (net w' (length (sent w'))) \<longrightarrow>
      snd (fetchWithAuth p init rc w) = Inl (Error ''Request timeout - API took too long to respond'')) \<and>
   (fullUrl_of p w = Inr u \<and> getValidToken w = (w', tok) \<and> (truthy tok \<or> rc \<noteq> 0) \<and>
    js_includes p ''/api/chat'' \<and> net w' (length (sent w')) = Reply ms res \<and> status res \<noteq> 401 \<longrightarrow>
      snd (fetchWithAuth p init rc w) = Inr res)"
proof -
  have policy: "getTimeoutForEndpoint p = (if js_includes p ''/api/chat'' then 0 else 30000)"
    by (simp add: getTimeoutForEndpoint_def CHAT_TIMEOUT_def DEFAULT_TIMEOUT_def)
  have none: "fetch_result 0 out = (latency out, net_result out)"
    by (simp add: fetch_result_def)
  have fires: "fetch_result t out = (t, Inl (Error ''Request timeout - API took too long to respond''))"
    if "0 < t" "t \<le> latency out" for t out
    using that by (simp add: fetch_result_def abortable_fetch_def)
  have passes: "fetch_result t out = (ms, Inl e)"
    if "0 < t" "latency out < t" "out = NetFail ms e" "err_name e \<noteq> ''AbortError''"
    using that by (simp add: fetch_result_def abortable_fetch_def net_result_def)
  have timed: "snd (fetchWithAuth p init rc w) = Inl (Error ''Request timeout - API took too long to respond'')"
    if a: "fullUrl_of p w = Inr u" "getValidToken w = (w', tok)" "truthy tok \<or> rc \<noteq> 0"
      and b: "\<not> js_includes p ''/api/chat''" "30000 \<le> latency (net w' (length (sent w')))"
  proof -
    let ?f = "fetchWithTimeout (Attempt rc) (auth_request u init tok) (getTimeoutForEndpoint p) w'"
    have "?f = (fst ?f, Inl (Error ''Request timeout - API took too long to respond''))"
      using b fires [of 30000 "net w' (length (sent w'))"]
      by (simp add: fetchWithTimeout_def policy)
    from fetchWithAuth_throws [OF a this] show ?thesis by simp
  qed
  have chat: "snd (fetchWithAuth p init rc w) = Inr res"
    if a: "fullUrl_of p w = Inr u" "getValidToken w = (w', tok)" "truthy tok \<or> rc \<noteq> 0"
      and b: "js_includes p ''/api/chat''" "net w' (length (sent w')) = Reply ms res" "status res \<noteq> 401"
  proof -
    let ?f = "fetchWithTimeout (Attempt rc) (auth_request u init tok) (getTimeoutForEndpoint p) w'"
    have f: "?f = (fst ?f, Inr res)"
      using b by (simp add: fetchWithTimeout_def policy fetch_result_def net_result_def)
    have "status res \<noteq> 401 \<or> rc \<noteq> 0" using b(3) by simp
    from fetchWithAuth_returns [OF a f this] show ?thesis by simp
  qed
  show ?thesis
    using policy none fires passes timed chat by blast
qed

text \<open>
  C7 against a backend that needs 35 seconds: the request for \<^verbatim>\<open>/api/sessions\<close> times
  out, the one for \<^verbatim>\<open>/api/chat\<close> completes; a transport failure after 10 ms stays a
  \<^verbatim>\<open>TypeError\<close>.
\<close>

theorem timeout_policy_witness:
  "getTimeoutForEndpoint ''/api/chat'' = 0 \<and> getTimeoutForEndpoint ''/api/sessions'' = 30000 \<and>
   fullUrl_of ''/api/sessions'' page_slow = Inr ''https://api.test/api/sessions'' \<and>
   fullUrl_of ''/api/chat'' page_slow = Inr ''https://api.test/api/chat'' \<and>
   getValidToken page_slow = (page_slow, Str ''A1'') \<and>
   net page_slow (length (sent page_slow)) = Reply 35000 \<lparr>status = 200, body = JsonNull\<rparr> \<and>
   snd (fetchWithAuth ''/api/sessions'' None 0 page_slow) =
     Inl (Error ''Request timeout - API took too long to respond'') \<and>
   snd (fetchWithAuth ''/api/chat'' None 0 page_slow) = Inr \<lparr>status = 200, body = JsonNull\<rparr> \<and>
   fetch_result 30000 (NetFail 10 (JsError ''TypeError'' ''Failed to fetch'')) =
     (10, Inl (JsError ''TypeError'' ''Failed to fetch''))"
proof -
  let ?res = "\<lparr>status = 200, body = JsonNull\<rparr>"
  have i: "js_includes ''/api/chat'' ''/api/chat''" "\<not> js_includes ''/api/sessions'' ''/api/chat''"
    by (simp_all add: js_includes_def sublist_code)
  have u: "fullUrl_of ''/api/sessions'' page_slow = Inr ''https://api.test/api/sessions''"
    "fullUrl_of ''/api/chat'' page_slow = Inr ''https://api.test/api/chat''"
    by (simp_all add: page_slow_def page_def api_defs is_ws_def)
  have g: "getValidToken page_slow = (page_slow, Str ''A1'')"
    by (simp add: page_slow_def page_def store_defs api_defs)
  have n: "net page_slow (length (sent page_slow)) = Reply 35000 ?res"
    by (simp add: page_slow_def page_def)
  have t: "truthy (Str ''A1'')" by simp
  have s: "status ?res \<noteq> 401" by simp
  note sessions = timeout_policy [where p = "''/api/sessions''" and w = page_slow and w' = page_slow
      and u = "''https://api.test/api/sessions''" and tok = "Str ''A1''" and rc = 0 and init = None
      and out = "NetFail 10 (JsError ''TypeError'' ''Failed to fetch'')" and t = 30000 and ms = 10
      and e = "JsError ''TypeError'' ''Failed to fetch''"]
  note chat = timeout_policy [where p = "''/api/chat''" and w = page_slow and w' = page_slow
      and u = "''https://api.test/api/chat''" and tok = "Str ''A1''" and rc = 0 and init = None
      and ms = 35000 and res = ?res]
  show ?thesis
    using sessions chat i u g n by simp
qed

section \<open>Retrying once\<close>

lemma String_401: "nat_to_string 401 = ''401''"
  by (simp add: nat_to_string.simps digit_char_def)

text \<open>
  C3: a call of the executor sends the underlying request at most twice. Started with
  counter 0 it sends nothing, or one request with counter 0, or that and a second one
  with counter 1, never a third; started with any other counter it sends at most one
  request and never resends. Whenever the response handed back has status 401 or 403,
  the last thing done was \<^verbatim>\<open>handleAuthError\<close>, which in a browser leaves the store empty.
\<close>

theorem fetchWithAuth_two_attempts:
  assumes "fetchWithAuth p init rc w = (w', r)"
  shows "(rc = 0 \<longrightarrow> attempts w' = attempts w \<or> attempts w' = attempts w @ [0] \<or>
                      attempts w' = attempts w @ [0, 1]) \<and>
         (rc \<noteq> 0 \<longrightarrow> attempts w' = attempts w \<or> attempts w' = attempts w @ [rc]) \<and>
         (\<forall>res. r = Inr res \<and> (status res = 401 \<or> status res = 403) \<longrightarrow>
            (\<exists>w2. w' = handleAuthError (''Auth error: '' @ nat_to_string (status res)) w2) \<and>
            (has_window w \<longrightarrow> store_cleared w'))"
proof -
  have shape: "(rc = 0 \<longrightarrow> attempts w' = attempts w \<or> attempts w' = attempts w @ [0] \<or>
                      attempts w' = attempts w @ [0, 1]) \<and>
         (rc \<noteq> 0 \<longrightarrow> attempts w' = attempts w \<or> attempts w' = attempts w @ [rc]) \<and>
         (\<forall>res. r = Inr res \<and> (status res = 401 \<or> status res = 403) \<longrightarrow>
            (\<exists>w2. w' = handleAuthError (''Auth error: '' @ nat_to_string (status res)) w2 \<and>
                  same_page w w2))"
  proof (cases "rc = 0")
    case True
    with assms have "fetchWithAuth p init 0 w = (w', r)" by simp
    from fetchWithAuth_first_attempt [OF this] True show ?thesis by simp
  next
    case False
    from fetchWithAuth_final_attempt [OF False assms] False show ?thesis by simp
  qed
  have "store_cleared w'"
    if "w' = handleAuthError m w2" "same_page w w2" "has_window w" for m w2
    using that handleAuthError_reported [of w2 m] by (simp add: same_page_def)
  with shape show ?thesis by blast
qed

text \<open>
  C3 against a backend that answers 401 to both attempts and serves the refresh exchange
  in between: two attempts with counters 0 and 1, the second 401 is returned, and the
  store is cleared.
\<close>

theorem fetchWithAuth_two_attempts_witness:
  "attempts (fst (fetchWithAuth ''/api/sessions'' None 0 page_401_twice)) = attempts page_401_twice @ [0, 1] \<and>
   snd (fetchWithAuth ''/api/sessions'' None 0 page_401_twice) = Inr \<lparr>status = 401, body = JsonNull\<rparr> \<and>
   has_window page_401_twice \<and>
   (\<exists>w2. fst (fetchWithAuth ''/api/sessions'' None 0 page_401_twice) = handleAuthError ''Auth error: 401'' w2) \<and>
   store_cleared (fst (fetchWithAuth ''/api/sessions'' None 0 page_401_twice))"
proof -
  let ?run = "fetchWithAuth ''/api/sessions'' None 0 page_401_twice"
  have a: "attempts (fst ?run) = attempts page_401_twice @ [0, 1]"
    by (simp add: fetchWithAuth.simps page_401_twice_def page_def new_pair_def store_defs api_defs sublist_code)
  have b: "snd ?run = Inr \<lparr>status = 401, body = JsonNull\<rparr>"
    by (simp add: fetchWithAuth.simps page_401_twice_def page_def new_pair_def store_defs api_defs sublist_code)
  have h: "has_window page_401_twice"
    by (simp add: page_401_twice_def page_def)
  have "?run = (fst ?run, snd ?run)" by simp
  from fetchWithAuth_two_attempts [OF this] b h
  have "(\<exists>w2. fst ?run = handleAuthError ''Auth error: 401'' w2) \<and> store_cleared (fst ?run)"
    by (simp add: String_401)
  with a b h show ?thesis by simp
qed

text \<open>
  C4, as the specification words it: when the first attempt returns 401 and the
  coordinator yields no credential, the executor returns that 401 response. Against a
  backend that answers 401 to everything, the first attempt returns 401, the coordinator
  yields \<^verbatim>\<open>null\<close>, and the executor throws \<^verbatim>\<open>Authentication failed\<close>.
\<close>

theorem fetchWithAuth_refresh_failure_counterexample:
  "getValidToken page_rejected = (page_rejected, Str ''A1'') \<and>
   snd (fetchWithTimeout (Attempt 0) (auth_request ''https://api.test/api/sessions'' None (Str ''A1''))
          (getTimeoutForEndpoint ''/api/sessions'') page_rejected) = Inr \<lparr>status = 401, body = JsonNull\<rparr> \<and>
   snd (refreshTokens (fst (fetchWithTimeout (Attempt 0) (auth_request ''https://api.test/api/sessions'' None (Str ''A1''))
          (getTimeoutForEndpoint ''/api/sessions'') page_rejected))) = Null \<and>
   snd (fetchWithAuth ''/api/sessions'' None 0 page_rejected) = Inl (Error ''Authentication failed'') \<and>
   snd (fetchWithAuth ''/api/sessions'' None 0 page_rejected) \<noteq> Inr \<lparr>status = 401, body = JsonNull\<rparr>"
  by (simp add: fetchWithAuth.simps page_rejected_def page_def store_defs api_defs sublist_code)

text \<open>
  C4, amended: when the first attempt returns 401 and the coordinator yields no fresh
  credential, the executor itself calls \<^verbatim>\<open>handleAuthError\<close> (which in a browser clears the
  store, writes its console line and, away from the public pages, assigns the sign-in
  location) and fails with the error \<^verbatim>\<open>Authentication failed\<close>; the 401 response is not
  handed to the caller, and no second attempt is made. Whether the coordinator has
  called \<^verbatim>\<open>handleAuthError\<close> before is not part of the statement.
\<close>

theorem fetchWithAuth_refresh_failure_raises:
  assumes "fullUrl_of p w = Inr u" "getValidToken w = (w1, tok)" "truthy tok"
    and "fetchWithTimeout (Attempt 0) (auth_request u init tok) (getTimeoutForEndpoint p) w1 = (w2, Inr res)"
    and "status res = 401" "refreshTokens w2 = (w3, newToken)" "\<not> truthy newToken"
  shows "fetchWithAuth p init 0 w =
           (handleAuthError ''Token refresh failed'' w3, Inl (Error ''Authentication failed'')) \<and>
         attempts (handleAuthError ''Token refresh failed'' w3) = attempts w @ [0] \<and>
         (has_window w \<longrightarrow>
            store_cleared (handleAuthError ''Token refresh failed'' w3) \<and>
            console (handleAuthError ''Token refresh failed'' w3) =
              console w3 @ [''Auth error: Token refresh failed''] \<and>
            navigations (handleAuthError ''Token refresh failed'' w3) =
              (if pathname w \<noteq> ''/login'' \<and> pathname w \<noteq> ''/signup'' \<and> pathname w \<noteq> ''/''
               then navigations w3 @ [''/login''] else navigations w3))"
proof -
  have a1: "attempts w1 = attempts w"
    using attempts_getValidToken [of w] by (simp add: assms(2))
  have a2: "attempts w2 = attempts w @ [0]"
    using attempts_fetchWithTimeout [of 0 "auth_request u init tok" "getTimeoutForEndpoint p" w1] a1
    by (simp add: assms(4))
  have a3: "attempts w3 = attempts w @ [0]"
    using attempts_refreshTokens [of w2] a2 by (simp add: assms(6))
  have p1: "same_page w w1"
    using same_page_getValidToken [of w] by (simp add: assms(2))
  have p2: "same_page w1 w2"
    using same_page_fetchWithTimeout [of w1 "Attempt 0" "auth_request u init tok" "getTimeoutForEndpoint p"]
    by (simp add: assms(4))
  have p3: "same_page w2 w3"
    using same_page_refreshTokens [of w2] by (simp add: assms(6))
  have "has_window w3 = has_window w" "pathname w3 = pathname w"
    using p1 p2 p3 by (simp_all add: same_page_def)
  then show ?thesis
    using fetchWithAuth_refresh_failed [OF assms] a3
      handleAuthError_reported [of w3 "''Token refresh failed''"]
    by simp
qed

text \<open>
  C4, amended, on two backends that answer 401 to the first attempt. One rejects the
  refresh exchange too: the coordinator has reported before the executor does, and the
  sign-in location is assigned twice. The other answers the exchange with an object
  without access credential: the coordinator yields \<^verbatim>\<open>undefined\<close> without reporting, and
  the executor's report is the only one.
\<close>

theorem fetchWithAuth_refresh_failure_raises_witness:
  "fullUrl_of ''/api/sessions'' page_rejected = Inr ''https://api.test/api/sessions'' \<and>
   getValidToken page_rejected = (page_rejected, Str ''A1'') \<and> truthy (Str ''A1'') \<and>
   status \<lparr>status = 401, body = JsonNull\<rparr> = 401 \<and> has_window page_rejected \<and>
   snd (fetchWithAuth ''/api/sessions'' None 0 page_rejected) = Inl (Error ''Authentication failed'') \<and>
   attempts (fst (fetchWithAuth ''/api/sessions'' None 0 page_rejected)) = [0] \<and>
   store_cleared (fst (fetchWithAuth ''/api/sessions'' None 0 page_rejected)) \<and>
   console (fst (fetchWithAuth ''/api/sessions'' None 0 page_rejected)) =
     [''Token refresh error: Refresh failed'', ''Auth error: Refresh failed'',
      ''Auth error: Token refresh failed''] \<and>
   navigations (fst (fetchWithAuth ''/api/sessions'' None 0 page_rejected)) = [''/login'', ''/login''] \<and>
   fullUrl_of ''/api/sessions'' page_empty_renewal = Inr ''https://api.test/api/sessions'' \<and>
   getValidToken page_empty_renewal = (page_empty_renewal, Str ''A1'') \<and>
   has_window page_empty_renewal \<and>
   snd (fetchWithAuth ''/api/sessions'' None 0 page_empty_renewal) = Inl (Error ''Authentication failed'') \<and>
   attempts (fst (fetchWithAuth ''/api/sessions'' None 0 page_empty_renewal)) = [0] \<and>
   store_cleared (fst (fetchWithAuth ''/api/sessions'' None 0 page_empty_renewal)) \<and>
   console (fst (fetchWithAuth ''/api/sessions'' None 0 page_empty_renewal)) =
     [''Auth error: Token refresh failed''] \<and>
   navigations (fst (fetchWithAuth ''/api/sessions'' None 0 page_empty_renewal)) = [''/login'']"
proof -
  let ?req = "auth_request ''https://api.test/api/sessions'' None (Str ''A1'')"
  let ?res = "\<lparr>status = 401, body = JsonNull\<rparr>"
  have t: "truthy (Str ''A1'')" by simp
  have s: "status ?res = 401" by simp
  have n: "\<not> truthy Null" "\<not> truthy Undefined" by simp_all
  have first: "fullUrl_of ''/api/sessions'' page_rejected = Inr ''https://api.test/api/sessions'' \<and>
     getValidToken page_rejected = (page_rejected, Str ''A1'') \<and> has_window page_rejected \<and>
     snd (fetchWithAuth ''/api/sessions'' None 0 page_rejected) = Inl (Error ''Authentication failed'') \<and>
     attempts (fst (fetchWithAuth ''/api/sessions'' None 0 page_rejected)) = [0] \<and>
     store_cleared (fst (fetchWithAuth ''/api/sessions'' None 0 page_rejected)) \<and>
     console (fst (fetchWithAuth ''/api/sessions'' None 0 page_rejected)) =
       [''Token refresh error: Refresh failed'', ''Auth error: Refresh failed'',
        ''Auth error: Token refresh failed''] \<and>
     navigations (fst (fetchWithAuth ''/api/sessions'' None 0 page_rejected)) = [''/login'', ''/login'']"
  proof -
    let ?w = page_rejected
    let ?f = "fetchWithTimeout (Attempt 0) ?req (getTimeoutForEndpoint ''/api/sessions'') ?w"
    have u: "fullUrl_of ''/api/sessions'' ?w = Inr ''https://api.test/api/sessions''"
      by (simp add: page_rejected_def page_def api_defs is_ws_def)
    have g: "getValidToken ?w = (?w, Str ''A1'')"
      by (simp add: page_rejected_def page_def store_defs api_defs)
    have h: "has_window ?w" "pathname ?w = ''/chat''"
      by (simp_all add: page_rejected_def page_def)
    have f: "?f = (fst ?f, Inr ?res)"
      by (simp add: page_rejected_def page_def api_defs sublist_code prod_eq_iff)
    have rf: "refreshTokens (fst ?f) = (fst (refreshTokens (fst ?f)), Null)"
      by (simp add: page_rejected_def page_def store_defs api_defs sublist_code prod_eq_iff)
    have a0: "attempts ?w = []"
      by (simp add: page_rejected_def page_def attempts_def map_filter_def)
    have lg: "console (fst (refreshTokens (fst ?f))) =
                [''Token refresh error: Refresh failed'', ''Auth error: Refresh failed'']"
      "navigations (fst (refreshTokens (fst ?f))) = [''/login'']"
      by (simp_all add: page_rejected_def page_def store_defs api_defs sublist_code)
    show ?thesis
      using fetchWithAuth_refresh_failure_raises [OF u g t f s rf n(1)] u g h a0 lg by simp
  qed
  have second: "fullUrl_of ''/api/sessions'' page_empty_renewal = Inr ''https://api.test/api/sessions'' \<and>
     getValidToken page_empty_renewal = (page_empty_renewal, Str ''A1'') \<and>
     has_window page_empty_renewal \<and>
     snd (fetchWithAuth ''/api/sessions'' None 0 page_empty_renewal) = Inl (Error ''Authentication failed'') \<and>
     attempts (fst (fetchWithAuth ''/api/sessions'' None 0 page_empty_renewal)) = [0] \<and>
     store_cleared (fst (fetchWithAuth ''/api/sessions'' None 0 page_empty_renewal)) \<and>
     console (fst (fetchWithAuth ''/api/sessions'' None 0 page_empty_renewal)) =
       [''Auth error: Token refresh failed''] \<and>
     navigations (fst (fetchWithAuth ''/api/sessions'' None 0 page_empty_renewal)) = [''/login'']"
  proof -
    let ?w = page_empty_renewal
    let ?f = "fetchWithTimeout (Attempt 0) ?req (getTimeoutForEndpoint ''/api/sessions'') ?w"
    have u: "fullUrl_of ''/api/sessions'' ?w = Inr ''https://api.test/api/sessions''"
      by (simp add: page_empty_renewal_def page_def api_defs is_ws_def)
    have g: "getValidToken ?w = (?w, Str ''A1'')"
      by (simp add: page_empty_renewal_def page_def store_defs api_defs)
    have h: "has_window ?w" "pathname ?w = ''/chat''"
      by (simp_all add: page_empty_renewal_def page_def)
    have f: "?f = (fst ?f, Inr ?res)"
      by (simp add: page_empty_renewal_def page_def api_defs sublist_code prod_eq_iff)
    have rf: "refreshTokens (fst ?f) = (fst (refreshTokens (fst ?f)), Undefined)"
      by (simp add: page_empty_renewal_def page_def empty_pair_def store_defs api_defs sublist_code prod_eq_iff)
    have a0: "attempts ?w = []"
      by (simp add: page_empty_renewal_def page_def attempts_def map_filter_def)
    have lg: "console (fst (refreshTokens (fst ?f))) = []"
      "navigations (fst (refreshTokens (fst ?f))) = []"
      by (simp_all add: page_empty_renewal_def page_def empty_pair_def store_defs api_defs sublist_code)
    show ?thesis
      using fetchWithAuth_refresh_failure_raises [OF u g t f s rf n(2)] u g h a0 lg by simp
  qed
  show ?thesis
    using first second t s by simp
qed

section \<open>Calls without a credential\<close>

text \<open>
  C8: when the destination resolves to a URL and no usable access credential can be
  obtained, a first attempt fails with the error \<^verbatim>\<open>Authentication required\<close>, after
  \<^verbatim>\<open>handleAuthError\<close> has cleared the store, written its console line and, away from the
  public pages, assigned the sign-in location; the executor has sent no request.
\<close>

theorem fetchWithAuth_authentication_required:
  assumes "fullUrl_of p w = Inr u" "getValidToken w = (w1, tok)" "\<not> truthy tok"
  shows "fetchWithAuth p init 0 w =
           (handleAuthError ''No valid token available'' w1, Inl (Error ''Authentication required'')) \<and>
         attempts (handleAuthError ''No valid token available'' w1) = attempts w \<and>
         (has_window w \<longrightarrow>
            store_cleared (handleAuthError ''No valid token available'' w1) \<and>
            console (handleAuthError ''No valid token available'' w1) =
              console w1 @ [''Auth error: No valid token available''] \<and>
            navigations (handleAuthError ''No valid token available'' w1) =
              (if pathname w \<noteq> ''/login'' \<and> pathname w \<noteq> ''/signup'' \<and> pathname w \<noteq> ''/''
               then navigations w1 @ [''/login''] else navigations w1))"
proof -
  have a1: "attempts w1 = attempts w"
    using attempts_getValidToken [of w] by (simp add: assms(2))
  have sp: "same_page w w1"
    using same_page_getValidToken [of w] by (simp add: assms(2))
  have "has_window w \<Longrightarrow> has_window w1" "pathname w1 = pathname w"
    using sp by (simp_all add: same_page_def)
  then show ?thesis
    using fetchWithAuth_no_token [OF assms] a1 handleAuthError_reported [of w1 "''No valid token available''"]
    by simp
qed

text \<open>
  C8 for a signed-out visitor on \<^verbatim>\<open>/chat\<close>: nothing is sent at all.
\<close>

theorem fetchWithAuth_authentication_required_witness:
  "fullUrl_of ''/api/sessions'' (signed_out\<lparr>pathname := ''/chat''\<rparr>) = Inr ''https://api.test/api/sessions'' \<and>
   \<not> truthy (snd (getValidToken (signed_out\<lparr>pathname := ''/chat''\<rparr>))) \<and>
   has_window (signed_out\<lparr>pathname := ''/chat''\<rparr>) \<and>
   snd (fetchWithAuth ''/api/sessions'' None 0 (signed_out\<lparr>pathname := ''/chat''\<rparr>)) =
     Inl (Error ''Authentication required'') \<and>
   sent (fst (fetchWithAuth ''/api/sessions'' None 0 (signed_out\<lparr>pathname := ''/chat''\<rparr>))) = [] \<and>
   store_cleared (fst (fetchWithAuth ''/api/sessions'' None 0 (signed_out\<lparr>pathname := ''/chat''\<rparr>))) \<and>
   navigations (fst (fetchWithAuth ''/api/sessions'' None 0 (signed_out\<lparr>pathname := ''/chat''\<rparr>))) =
     [''/login'', ''/login'']"
proof -
  let ?w = "signed_out\<lparr>pathname := ''/chat''\<rparr>"
  have u: "fullUrl_of ''/api/sessions'' ?w = Inr ''https://api.test/api/sessions''"
    by (simp add: signed_out_def page_def api_defs is_ws_def)
  have g: "getValidToken ?w = (fst (getValidToken ?w), snd (getValidToken ?w))" by simp
  have t: "\<not> truthy (snd (getValidToken ?w))"
    by (simp add: signed_out_def page_def store_defs api_defs)
  have h: "has_window ?w"
    by (simp add: signed_out_def page_def)
  have s: "sent (fst (getValidToken ?w)) = []" "navigations (fst (getValidToken ?w)) = [''/login'']"
    by (simp_all add: signed_out_def page_def store_defs api_defs)
  show ?thesis
    using fetchWithAuth_authentication_required [OF u g t, of None] u t h s
    by simp
qed

text \<open>
  C10: a call with a counter other than 0 for which no access credential can be
  obtained still sends its request, whose \<^verbatim>\<open>Authorization\<close> header is whatever the
  caller's own headers held (none, if the caller set none); the outcome of the call is the
  outcome of that request.
\<close>

theorem fetchWithAuth_retry_without_token:
  assumes "fullUrl_of p w = Inr u" "getValidToken w = (w1, tok)" "\<not> truthy tok" "rc \<noteq> 0"
    and "fetchWithTimeout (Attempt rc) (auth_request u init tok) (getTimeoutForEndpoint p) w1 = (w2, r)"
  shows "snd (fetchWithAuth p init rc w) = r \<and>
         sent (fst (fetchWithAuth p init rc w)) = sent w1 @ [(Attempt rc, auth_request u init tok)] \<and>
         req_headers (auth_request u init tok) ''authorization'' =
           (case init of None \<Rightarrow> None | Some i \<Rightarrow> init_headers i ''authorization'')"
proof -
  have rc: "truthy tok \<or> rc \<noteq> 0" using assms(4) by simp
  have s2: "sent w2 = sent w1 @ [(Attempt rc, auth_request u init tok)]"
    using assms(5) by (auto simp add: fetchWithTimeout_def split: prod.splits)
  have hd: "req_headers (auth_request u init tok) ''authorization'' =
           (case init of None \<Rightarrow> None | Some i \<Rightarrow> init_headers i ''authorization'')"
    using assms(3) by (simp add: auth_request_def auth_headers_def Let_def split: option.splits)
  show ?thesis
  proof (cases r)
    case (Inl err)
    have "fetchWithAuth p init rc w = (api_catch err w2, Inl err)"
      using fetchWithAuth_throws [OF assms(1,2) rc assms(5) [unfolded Inl]] .
    moreover have "sent (api_catch err w2) = sent w2"
      by (simp add: api_catch_def)
    ultimately show ?thesis
      using s2 hd Inl by simp
  next
    case (Inr res)
    have st: "status res \<noteq> 401 \<or> rc \<noteq> 0" using assms(4) by simp
    have "fetchWithAuth p init rc w =
           (if status res = 401 \<or> status res = 403
            then handleAuthError (''Auth error: '' @ nat_to_string (status res)) w2 else w2,
            Inr res)"
      using fetchWithAuth_returns [OF assms(1,2) rc assms(5) [unfolded Inr] st] .
    then show ?thesis
      using s2 hd Inr by simp
  qed
qed

text \<open>
  C10 for the signed-out visitor and counter 1: the request goes out without an
  \<^verbatim>\<open>Authorization\<close> header and its answer comes back.
\<close>

theorem fetchWithAuth_retry_without_token_witness:
  "fullUrl_of ''/api/sessions'' signed_out = Inr ''https://api.test/api/sessions'' \<and>
   \<not> truthy (snd (getValidToken signed_out)) \<and> (1::nat) \<noteq> 0 \<and>
   snd (fetchWithAuth ''/api/sessions'' None 1 signed_out) = Inr \<lparr>status = 200, body = new_pair\<rparr> \<and>
   map (\<lambda>(who, req). (who, url req, req_headers req ''authorization''))
     (sent (fst (fetchWithAuth ''/api/sessions'' None 1 signed_out))) =
     [(Attempt 1, ''https://api.test/api/sessions'', None)]"
proof -
  let ?w1 = "fst (getValidToken signed_out)"
  let ?tok = "snd (getValidToken signed_out)"
  let ?f = "fetchWithTimeout (Attempt 1) (auth_request ''https://api.test/api/sessions'' None ?tok)
              (getTimeoutForEndpoint ''/api/sessions'') ?w1"
  have u: "fullUrl_of ''/api/sessions'' signed_out = Inr ''https://api.test/api/sessions''"
    by (simp add: signed_out_def page_def api_defs is_ws_def)
  have g: "getValidToken signed_out = (?w1, ?tok)" by simp
  have t: "\<not> truthy ?tok"
    by (simp add: signed_out_def page_def store_defs api_defs)
  have rc: "(1::nat) \<noteq> 0" by simp
  have f: "?f = (fst ?f, snd ?f)" by simp
  have r: "snd ?f = Inr \<lparr>status = 200, body = new_pair\<rparr>"
    by (simp add: signed_out_def page_def store_defs api_defs sublist_code)
  have s: "sent ?w1 = []"
    by (simp add: signed_out_def page_def store_defs api_defs)
  have k: "?tok = Null"
    by (simp add: signed_out_def page_def store_defs api_defs)
  show ?thesis
    using fetchWithAuth_retry_without_token [OF u g t rc f] u t r s
    by (simp add: k auth_request_def auth_headers_def)
qed

text \<open>The same situation reached from a first attempt.\<close>

lemma retry_without_token_reached:
  "map (\<lambda>(who, req). (who, url req, req_headers req ''authorization''))
     (sent (fst (fetchWithAuth ''/api/sessions'' None 0 page_short_lived))) =
   [(Attempt 0, ''https://api.test/api/sessions'', Some ''Bearer A1''),
    (RefreshExchange, ''https://api.test/api/auth/refresh'', None),
    (RefreshExchange, ''https://api.test/api/auth/refresh'', None),
    (Attempt 1, ''https://api.test/api/sessions'', None)]"
  by (simp add: fetchWithAuth.simps page_short_lived_def page_def short_pair_def store_defs api_defs sublist_code)

section \<open>The coordinator: one exchange\<close>

text \<open>The first invocation with a usable refresh credential sends the exchange.\<close>

lemma refreshTokens_call_starts:
  assumes "refreshPromise w = None" "refreshToken (getTokens w) = Str rt" "rt \<noteq> []"
    and "isRefreshTokenValid w" "apiBase w = Inr base"
  shows "refreshTokens_call w =
           (w\<lparr>refreshPromise := Some (length (promises w)),
               promises := promises w @ [Pending rt (length (sent w))],
               sent := sent w @ [(RefreshExchange, refresh_request base rt)]\<rparr>,
            length (promises w))"
  using assms by (simp add: refreshTokens_call_def refresh_body_start_def Let_def)

lemma refresh_settle_pending:
  assumes "promises w ! p = Pending rt i"
  shows "refresh_settle p r w =
           (case refresh_body_resume rt r w of
              (w1, v) \<Rightarrow> (w1\<lparr>promises := (promises w1)[p := Fulfilled v]\<rparr>, v))"
  using assms by (simp add: refresh_settle_def)

lemma promises_refresh_body_resume [simp]:
  "promises (fst (refresh_body_resume rt r w)) = promises w"
  by (simp add: refresh_body_resume_def refresh_try_def Let_def refresh_finally_def
      refresh_catch_def handleAuthError_def clearTokens_def setTokens_def
      split: sum.splits json_body.splits prod.splits)

lemma refreshPromise_refresh_body_resume [simp]:
  "refreshPromise (fst (refresh_body_resume rt r w)) = None"
  by (simp add: refresh_body_resume_def refresh_finally_def split: sum.splits prod.splits)

text \<open>Once an exchange was sent, its settling clears the handle and fulfils the promise.\<close>

lemma refresh_settle_clears:
  assumes "promises w ! p = Pending rt i" "p < length (promises w)"
    and "refresh_settle p r w = (w', v)"
  shows "refreshPromise w' = None \<and> promises w' = (promises w)[p := Fulfilled v] \<and> sent w' = sent w"
proof -
  obtain w1 v1 where b: "refresh_body_resume rt r w = (w1, v1)"
    by (cases "refresh_body_resume rt r w")
  have "promises w1 = promises w" "refreshPromise w1 = None" "sent w1 = sent w"
    using promises_refresh_body_resume [of rt r w] refreshPromise_refresh_body_resume [of rt r w]
      sent_refresh_body_resume [of rt r w]
    by (simp_all add: b)
  then show ?thesis
    using assms(3) by (auto simp add: refresh_settle_pending [OF assms(1)] b)
qed




text \<open>
  C2 says that the handle is \<^verbatim>\<open>null\<close> again whenever a renewal has settled, also when the
  refresh credential was absent. For the signed-out visitor the body returns above the
  \<^verbatim>\<open>try\<close> block, so \<^verbatim>\<open>finally\<close> never runs, and the fulfilled promise is then assigned
  to the handle. It stays there: after the visitor has signed in, with a usable refresh
  credential in the store and an expired access credential, the coordinator still
  answers \<^verbatim>\<open>null\<close> without sending anything, and the executor signs the visitor out.
  (Where the exchange is sent, the handle is cleared: \<open>refresh_settle_clears\<close>.)
\<close>

theorem refresh_handle_stuck:
  "refreshPromise signed_out = None \<and>
   refreshPromise after_failed_renewal = Some 0 \<and>
   promises after_failed_renewal = [Fulfilled Null] \<and>
   truthy (refreshToken (getTokens signed_in_again)) \<and>
   isRefreshTokenValid signed_in_again \<and>
   isAccessExpired signed_in_again \<and>
   snd (refreshTokens signed_in_again) = Null \<and>
   sent (fst (refreshTokens signed_in_again)) = [] \<and>
   refreshPromise (fst (refreshTokens signed_in_again)) = Some 0 \<and>
   snd (fetchWithAuth ''/api/sessions'' None 0 signed_in_again) = Inl (Error ''Authentication required'') \<and>
   store_cleared (fst (fetchWithAuth ''/api/sessions'' None 0 signed_in_again))"
  by (simp add: fetchWithAuth.simps signed_in_again_def after_failed_renewal_def signed_out_def
      page_def store_defs api_defs)

section \<open>The coordinator: many callers\<close>

lemma run_Nil [simp]: "run [] s = s"
  by (simp add: run_def)

lemma run_Cons [simp]: "run (e # es) s = run es (step e s)"
  by (simp add: run_def)

lemma step_joins:
  assumes "refreshPromise w = Some p" "\<not> is_settle e"
  shows "\<exists>w1. step e (w, ps) = (w1, if e = Invoke then ps @ [p] else ps) \<and>
              refreshPromise w1 = Some p \<and> promises w1 = promises w \<and> sent w1 = sent w"
  using assms by (cases e) (simp_all add: refreshTokens_call_def)

lemma run_joins:
  assumes "\<forall>e \<in> set es. \<not> is_settle e" "refreshPromise w = Some p" "run es (w, ps) = (w', ps')"
  shows "refreshPromise w' = Some p \<and> promises w' = promises w \<and> sent w' = sent w \<and>
         ps' = ps @ replicate (count_list es Invoke) p"
  using assms
proof (induction es arbitrary: w ps)
  case Nil
  then show ?case by simp
next
  case (Cons e es)
  from Cons.prems(1) have ns: "\<not> is_settle e" and rest: "\<forall>x \<in> set es. \<not> is_settle x"
    by simp_all
  from step_joins [OF Cons.prems(2) ns, of ps]
  obtain w1 where s: "step e (w, ps) = (w1, if e = Invoke then ps @ [p] else ps)"
    and h: "refreshPromise w1 = Some p" and pr: "promises w1 = promises w" and se: "sent w1 = sent w"
    by blast
  from Cons.prems(3) have "run es (w1, if e = Invoke then ps @ [p] else ps) = (w', ps')"
    by (simp add: s)
  from Cons.IH [OF rest h this] pr se show ?case
    by (simp add: replicate_app_Cons_same)
qed

lemma refreshTokens_call_any:
  "\<exists>w1 p. refreshTokens_call w = (w1, p) \<and> refreshPromise w1 = Some p \<and>
          (sent w1 = sent w \<or> (\<exists>req. sent w1 = sent w @ [(RefreshExchange, req)]))"
proof (cases "refreshPromise w")
  case (Some p)
  then show ?thesis by (simp add: refreshTokens_call_def)
next
  case None
  obtain w0 st where b: "refresh_body_start w = (w0, st)"
    by (cases "refresh_body_start w")
  have "sent w0 = sent w \<or> (\<exists>req. sent w0 = sent w @ [(RefreshExchange, req)])"
    using b by (auto simp add: refresh_body_start_def Let_def split: if_splits sum.splits)
  then show ?thesis
    by (simp add: refreshTokens_call_def None b)
qed

text \<open>
  What the handle achieves: a caller invokes the coordinator, and before the exchange
  settles any number of further callers do, while time passes and the store is written.
  All of them get the same promise and at most one exchange has been sent. If there was
  no handle and the refresh credential was usable, exactly one exchange has been sent,
  and when it settles that one promise is fulfilled with its result and the handle is
  clear.
\<close>

lemma callers_share_one_exchange:
  assumes "\<forall>e \<in> set es. \<not> is_settle e"
    and "run (Invoke # es) (w, []) = (w', ps)"
  shows "(\<exists>p. ps = replicate (Suc (count_list es Invoke)) p \<and> refreshPromise w' = Some p) \<and>
         (sent w' = sent w \<or> (\<exists>req. sent w' = sent w @ [(RefreshExchange, req)])) \<and>
         (refreshPromise w = None \<and> refreshToken (getTokens w) = Str rt \<and> rt \<noteq> [] \<and>
          isRefreshTokenValid w \<and> apiBase w = Inr base \<longrightarrow>
            sent w' = sent w @ [(RefreshExchange, refresh_request base rt)] \<and>
            ps = replicate (Suc (count_list es Invoke)) (length (promises w)) \<and>
            promises w' = promises w @ [Pending rt (length (sent w))] \<and>
            (\<forall>r w'' v. refresh_settle (length (promises w)) r w' = (w'', v) \<longrightarrow>
               sent w'' = sent w' \<and> refreshPromise w'' = None \<and>
               promises w'' = promises w @ [Fulfilled v]))"
proof -
  obtain w1 p where c: "refreshTokens_call w = (w1, p)" and h1: "refreshPromise w1 = Some p"
    and s1: "sent w1 = sent w \<or> (\<exists>req. sent w1 = sent w @ [(RefreshExchange, req)])"
    using refreshTokens_call_any [of w] by blast
  have "run es (w1, [p]) = (w', ps)"
    using assms(2) by (simp add: c)
  from run_joins [OF assms(1) h1 this]
  have h: "refreshPromise w' = Some p" and pr: "promises w' = promises w1"
    and se: "sent w' = sent w1" and ps: "ps = [p] @ replicate (count_list es Invoke) p"
    by simp_all
  have general: "(\<exists>p. ps = replicate (Suc (count_list es Invoke)) p \<and> refreshPromise w' = Some p) \<and>
         (sent w' = sent w \<or> (\<exists>req. sent w' = sent w @ [(RefreshExchange, req)]))"
    using h ps se s1 by simp
  have exact: "sent w' = sent w @ [(RefreshExchange, refresh_request base rt)] \<and>
            ps = replicate (Suc (count_list es Invoke)) (length (promises w)) \<and>
            promises w' = promises w @ [Pending rt (length (sent w))] \<and>
            (\<forall>r w'' v. refresh_settle (length (promises w)) r w' = (w'', v) \<longrightarrow>
               sent w'' = sent w' \<and> refreshPromise w'' = None \<and>
               promises w'' = promises w @ [Fulfilled v])"
    if a: "refreshPromise w = None" "refreshToken (getTokens w) = Str rt" "rt \<noteq> []"
      "isRefreshTokenValid w" "apiBase w = Inr base"
  proof -
    have w1: "w1 = w\<lparr>refreshPromise := Some (length (promises w)),
               promises := promises w @ [Pending rt (length (sent w))],
               sent := sent w @ [(RefreshExchange, refresh_request base rt)]\<rparr>"
      and p: "p = length (promises w)"
      using c by (auto simp add: refreshTokens_call_starts [OF a])
    have pr': "promises w' = promises w @ [Pending rt (length (sent w))]"
      and se': "sent w' = sent w @ [(RefreshExchange, refresh_request base rt)]"
      using pr se by (simp_all add: w1)
    have pend: "promises w' ! length (promises w) = Pending rt (length (sent w))"
      and len: "length (promises w) < length (promises w')"
      by (simp_all add: pr')
    have "sent w'' = sent w' \<and> refreshPromise w'' = None \<and> promises w'' = promises w @ [Fulfilled v]"
      if "refresh_settle (length (promises w)) r w' = (w'', v)" for r w'' v
      using refresh_settle_clears [OF pend len that] by (simp add: pr')
    then show ?thesis
      using pr' se' ps p by simp
  qed
  show ?thesis
    using general exact by blast
qed

text \<open>
  Three callers on the page with an expired access credential and no handle: one
  exchange, one promise, fulfilled with A2 when the exchange settles.
\<close>

lemma callers_share_one_exchange_example:
  "refreshPromise page = None \<and> refreshToken (getTokens page) = Str ''R1'' \<and>
   isRefreshTokenValid page \<and> apiBase page = Inr ''https://api.test'' \<and>
   snd (run [Invoke, Invoke, Tick 5, Invoke] (page, [])) = [0, 0, 0] \<and>
   sent (fst (run [Invoke, Invoke, Tick 5, Invoke] (page, []))) =
     [(RefreshExchange, refresh_request ''https://api.test'' ''R1'')] \<and>
   promises (fst (run [Invoke, Invoke, Tick 5, Invoke] (page, []))) = [Pending ''R1'' 0] \<and>
   promises (fst (run [Invoke, Invoke, Tick 5, Invoke, Settle 0 (Inr \<lparr>status = 200, body = new_pair\<rparr>)] (page, []))) =
     [Fulfilled (Str ''A2'')] \<and>
   refreshPromise (fst (run [Invoke, Invoke, Tick 5, Invoke, Settle 0 (Inr \<lparr>status = 200, body = new_pair\<rparr>)] (page, []))) = None"
proof -
  let ?es = "[Invoke, Tick 5, Invoke]"
  let ?s = "run (Invoke # ?es) (page, [])"
  have ns: "\<forall>e \<in> set ?es. \<not> is_settle e" by simp
  have r: "?s = (fst ?s, snd ?s)" by simp
  have a: "refreshPromise page = None" "refreshToken (getTokens page) = Str ''R1''" "''R1'' \<noteq> []"
    "isRefreshTokenValid page" "apiBase page = Inr ''https://api.test''"
    by (simp_all add: page_def store_defs apiBase_def trim_def)
  have e: "promises page = []" "sent page = []"
    by (simp_all add: page_def)
  have c: "count_list ?es Invoke = 2" by simp
  have st: "promises (fst (run [Invoke, Invoke, Tick 5, Invoke, Settle 0 (Inr \<lparr>status = 200, body = new_pair\<rparr>)] (page, []))) =
     [Fulfilled (Str ''A2'')] \<and>
   refreshPromise (fst (run [Invoke, Invoke, Tick 5, Invoke, Settle 0 (Inr \<lparr>status = 200, body = new_pair\<rparr>)] (page, []))) = None"
    by (simp add: page_def new_pair_def store_defs api_defs)
  show ?thesis
    using callers_share_one_exchange [OF ns r, of "''R1''" "''https://api.test''"] a e st
    by (simp add: numeral_2_eq_2 numeral_3_eq_3)
qed

text \<open>
  C1 says that callers who need a renewal while the access credential has expired and the
  refresh credential is valid cause exactly one call of the refresh endpoint, whose
  result they all receive. That holds when the handle is clear (lemma
  \<open>callers_share_one_exchange\<close>). With the handle that the early returns of
  \<^verbatim>\<open>refreshTokens\<close> leave behind (the defect shown for C2), it fails: after the visitor
  has signed in, the access credential is expired and the refresh credential valid, three
  callers invoke the coordinator, all get the old promise of \<^verbatim>\<open>null\<close>, and no exchange is
  sent at all.
\<close>

theorem refresh_single_flight_stale_handle:
  "truthy (refreshToken (getTokens signed_in_again)) \<and>
   isRefreshTokenValid signed_in_again \<and>
   isAccessExpired signed_in_again \<and>
   apiBase signed_in_again = Inr ''https://api.test'' \<and>
   refreshPromise signed_in_again = Some 0 \<and>
   promises signed_in_again = [Fulfilled Null] \<and>
   snd (run [Invoke, Invoke, Invoke] (signed_in_again, [])) = [0, 0, 0] \<and>
   sent (fst (run [Invoke, Invoke, Invoke] (signed_in_again, []))) = [] \<and>
   promises (fst (run [Invoke, Invoke, Invoke] (signed_in_again, []))) = [Fulfilled Null] \<and>
   snd (getValidToken signed_in_again) = Null \<and>
   sent (fst (getValidToken signed_in_again)) = []"
  by (simp add: signed_in_again_def after_failed_renewal_def signed_out_def page_def
      store_defs api_defs is_ws_def)

subsection \<open>At most one exchange in flight\<close>

lemma promises_refresh_body_start [simp]: "promises (fst (refresh_body_start w)) = promises w"
  by (simp add: refresh_body_start_def Let_def refresh_finally_def refresh_catch_def
      handleAuthError_def clearTokens_def split: sum.splits)

lemma handle_tracks_pending_call:
  assumes "handle_tracks_pending w"
  shows "handle_tracks_pending (fst (refreshTokens_call w))"
proof (cases "refreshPromise w")
  case (Some p)
  with assms show ?thesis by (simp add: refreshTokens_call_def)
next
  case None
  obtain w1 st where b: "refresh_body_start w = (w1, st)"
    by (cases "refresh_body_start w")
  have pr: "promises w1 = promises w"
    using promises_refresh_body_start [of w] by (simp add: b)
  have none: "\<forall>i < length (promises w). \<not> is_pending (promises w ! i)"
    using assms None by (auto simp add: handle_tracks_pending_def)
  show ?thesis
    using none
    by (auto simp add: refreshTokens_call_def None b pr handle_tracks_pending_def nth_append
        less_Suc_eq)
qed

lemma handle_tracks_pending_settle:
  assumes "handle_tracks_pending w" "p < length (promises w)"
  shows "handle_tracks_pending (fst (refresh_settle p r w))"
proof (cases "promises w ! p")
  case (Fulfilled v)
  with assms show ?thesis by (simp add: refresh_settle_def)
next
  case (Pending rt i)
  obtain w' v where s: "refresh_settle p r w = (w', v)"
    by (cases "refresh_settle p r w")
  from refresh_settle_clears [OF Pending assms(2) s]
  have pr: "promises w' = (promises w)[p := Fulfilled v]" and h: "refreshPromise w' = None"
    by simp_all
  have hp: "refreshPromise w = Some p"
    using assms Pending by (simp add: handle_tracks_pending_def)
  have "\<not> is_pending (promises w' ! j)" if "j < length (promises w')" for j
  proof (cases "j = p")
    case True
    then show ?thesis using that by (simp add: pr)
  next
    case False
    with that assms(1) hp show ?thesis
      by (auto simp add: pr handle_tracks_pending_def)
  qed
  then show ?thesis
    by (simp add: s handle_tracks_pending_def)
qed

lemma handle_tracks_pending_step:
  assumes "handle_tracks_pending w"
  shows "handle_tracks_pending (fst (step e (w, ps)))"
proof (cases e)
  case Invoke
  obtain w1 p where c: "refreshTokens_call w = (w1, p)"
    by (cases "refreshTokens_call w")
  have "handle_tracks_pending w1"
    using handle_tracks_pending_call [OF assms] by (simp add: c)
  then show ?thesis
    by (simp add: Invoke c)
next
  case (Settle p r)
  then show ?thesis
    using handle_tracks_pending_settle [OF assms] assms by simp
qed (use assms in \<open>simp_all add: handle_tracks_pending_def\<close>)

lemma handle_tracks_pending_run:
  assumes "handle_tracks_pending w"
  shows "handle_tracks_pending (fst (run es (w, ps)))"
  using assms
proof (induction es arbitrary: w ps)
  case Nil
  then show ?case by simp
next
  case (Cons e es)
  obtain w1 ps1 where s: "step e (w, ps) = (w1, ps1)"
    by (cases "step e (w, ps)")
  have "handle_tracks_pending w1"
    using handle_tracks_pending_step [OF Cons.prems, of e ps] by (simp add: s)
  from Cons.IH [OF this] show ?case by (simp add: s)
qed

lemma filter_at_most_one:
  assumes "\<forall>i j. i < length xs \<and> j < length xs \<and> P (xs ! i) \<and> P (xs ! j) \<longrightarrow> i = j"
  shows "length (filter P xs) \<le> 1"
  using assms
proof (induction xs)
  case Nil
  then show ?case by simp
next
  case (Cons x xs)
  show ?case
  proof (cases "P x")
    case True
    have "\<not> P (xs ! i)" if "i < length xs" for i
    proof
      assume "P (xs ! i)"
      with Cons.prems [rule_format, of 0 "Suc i"] True that show False by simp
    qed
    then have "filter P xs = []"
      by (auto simp add: filter_empty_conv in_set_conv_nth)
    with True show ?thesis by simp
  next
    case False
    have "\<forall>i j. i < length xs \<and> j < length xs \<and> P (xs ! i) \<and> P (xs ! j) \<longrightarrow> i = j"
    proof (intro allI impI)
      fix i j
      assume "i < length xs \<and> j < length xs \<and> P (xs ! i) \<and> P (xs ! j)"
      with Cons.prems [rule_format, of "Suc i" "Suc j"] show "i = j" by simp
    qed
    from Cons.IH [OF this] False show ?thesis by simp
  qed
qed

text \<open>From a page that has just loaded, whatever happens, at most one exchange is in flight.\<close>

lemma at_most_one_in_flight:
  assumes "promises w = []"
  shows "in_flight (fst (run es (w, ps))) \<le> 1"
proof -
  have "handle_tracks_pending w"
    using assms by (simp add: handle_tracks_pending_def)
  from handle_tracks_pending_run [OF this, of es ps]
  have "\<forall>i j. i < length (promises (fst (run es (w, ps)))) \<and>
              j < length (promises (fst (run es (w, ps)))) \<and>
              is_pending (promises (fst (run es (w, ps))) ! i) \<and>
              is_pending (promises (fst (run es (w, ps))) ! j) \<longrightarrow> i = j"
    unfolding handle_tracks_pending_def by (metis option.inject)
  then show ?thesis
    unfolding in_flight_def by (rule filter_at_most_one)
qed

end
